theory Spec2Isabelle
  imports Main "HOL-Library.Char_ord" "HOL-Library.List_Lexorder"
begin

section \<open>Package cli: registration and dispatch of sub-commands\<close>

text \<open>
  A shallow embedding of the Go package \<^verbatim>\<open>cli\<close>: \<^verbatim>\<open>Rule\<close> registers a command after
  inspecting the signature of its \<^verbatim>\<open>Run\<close> method by reflection, \<^verbatim>\<open>Run\<close> binds the
  positional arguments to that method and calls it, \<^verbatim>\<open>printUsage\<close> prints the commands
  and their flags.

  The packages \<^verbatim>\<open>reflect\<close>, \<^verbatim>\<open>flag\<close>, \<^verbatim>\<open>strconv\<close> and \<^verbatim>\<open>strings\<close> of the standard
  library are modelled as far as the package uses them.
\<close>

subsection \<open>reflect: kinds, types, values\<close>

datatype reflect_Kind =
    reflect_Invalid | reflect_Bool
  | reflect_Int | reflect_Int8 | reflect_Int16 | reflect_Int32 | reflect_Int64
  | reflect_Uint | reflect_Uint8 | reflect_Uint16 | reflect_Uint32 | reflect_Uint64
  | reflect_Uintptr | reflect_Float32 | reflect_Float64
  | reflect_Complex64 | reflect_Complex128
  | reflect_Array | reflect_Chan | reflect_Func | reflect_Interface | reflect_Map
  | reflect_Ptr | reflect_Slice | reflect_String | reflect_Struct
  | reflect_UnsafePointer

text \<open>
  Go types, as far as a \<^verbatim>\<open>Run\<close> method's signature is concerned: the predeclared types,
  slices, pointers, maps and opaque struct and interface types. Defined types with
  another underlying type (\<^verbatim>\<open>type T string\<close>) are outside the model.
\<close>

datatype gotype =
    T_bool | T_int | T_int64 | T_uint | T_float64 | T_string
  | T_slice gotype | T_ptr gotype | T_map gotype gotype
  | T_struct string | T_interface string

fun Kind :: "gotype \<Rightarrow> reflect_Kind" where
  "Kind T_bool = reflect_Bool"
| "Kind T_int = reflect_Int"
| "Kind T_int64 = reflect_Int64"
| "Kind T_uint = reflect_Uint"
| "Kind T_float64 = reflect_Float64"
| "Kind T_string = reflect_String"
| "Kind (T_slice _) = reflect_Slice"
| "Kind (T_ptr _) = reflect_Ptr"
| "Kind (T_map _ _) = reflect_Map"
| "Kind (T_struct _) = reflect_Struct"
| "Kind (T_interface _) = reflect_Interface"

text \<open>\<^verbatim>\<open>Type.Elem\<close> panics unless the type is an array, channel, map, pointer or slice.\<close>

fun Elem :: "gotype \<Rightarrow> gotype option" where
  "Elem (T_slice t) = Some t"
| "Elem (T_ptr t) = Some t"
| "Elem (T_map _ t) = Some t"
| "Elem _ = None"

text \<open>
  The type of a method expression takes the receiver as its first input, so \<^verbatim>\<open>NumIn\<close>
  is at least 1 and \<^verbatim>\<open>In(0)\<close> is the receiver. For a function whose final parameter
  is declared \<^verbatim>\<open>...T\<close>, \<^verbatim>\<open>IsVariadic\<close> holds and the final input is the slice type
  \<^verbatim>\<open>[]T\<close>.
\<close>

record func_type =
  recv :: gotype
  params :: "gotype list"
  results :: "gotype list"
  IsVariadic :: bool

definition NumIn :: "func_type \<Rightarrow> nat" where
  "NumIn t = Suc (length (params t))"

definition In :: "func_type \<Rightarrow> nat \<Rightarrow> gotype" where
  "In t i = (recv t # params t) ! i"

definition NumOut :: "func_type \<Rightarrow> nat" where
  "NumOut t = length (results t)"

definition Out :: "func_type \<Rightarrow> nat \<Rightarrow> gotype" where
  "Out t i = results t ! i"

text \<open>
  A \<^verbatim>\<open>reflect.Value\<close>: the zero Value is \<open>Invalid\<close>; \<open>V_receiver\<close> is
  \<^verbatim>\<open>reflect.ValueOf(rule.command)\<close>; \<open>V_other t\<close> is some value of a type \<open>t\<close> that
  is not listed.
\<close>

datatype "value" =
    Invalid
  | V_receiver
  | V_string string
  | V_strings "string list"
  | V_int int
  | V_int64 int
  | V_other gotype

subsection \<open>flag: flags and flag sets\<close>

text \<open>
  The values behind the flags of the standard library, with their \<^verbatim>\<open>String\<close> method
  (which gives \<^verbatim>\<open>Flag.DefValue\<close> when the flag is defined).
\<close>

datatype flag_Value = boolValue bool | intValue int | stringValue string

record Flag =
  Name :: string
  Usage :: string
  Value :: flag_Value
  DefValue :: string

text \<open>
  A flag set: its name, the flags defined on it (in the order they were defined) and,
  after parsing, the arguments left over.
\<close>

record FlagSet =
  fs_name :: string
  formal :: "Flag list"
  fs_args :: "string list"

definition NewFlagSet :: "string \<Rightarrow> FlagSet" where
  "NewFlagSet name' = \<lparr>fs_name = name', formal = [], fs_args = []\<rparr>"

text \<open>\<^verbatim>\<open>VisitAll\<close> visits the flags in lexicographical order of their names.\<close>

definition VisitAll :: "FlagSet \<Rightarrow> Flag list" where
  "VisitAll fs = sort_key Name (formal fs)"

definition Args :: "FlagSet \<Rightarrow> string list" where
  "Args fs = fs_args fs"

text \<open>\<^verbatim>\<open>strconv.Itoa\<close> and \<^verbatim>\<open>strconv.FormatBool\<close>.\<close>

fun Itoa_nat :: "nat \<Rightarrow> string" where
  "Itoa_nat n =
     (if n < 10 then [char_of (48 + n)]
      else Itoa_nat (n div 10) @ [char_of (48 + n mod 10)])"

declare Itoa_nat.simps [simp del]

definition Itoa :: "int \<Rightarrow> string" where
  "Itoa i = (if i < 0 then CHR ''-'' # Itoa_nat (nat (- i)) else Itoa_nat (nat i))"

definition FormatBool :: "bool \<Rightarrow> string" where
  "FormatBool b = (if b then ''true'' else ''false'')"

fun String_v :: "flag_Value \<Rightarrow> string" where
  "String_v (boolValue b) = FormatBool b"
| "String_v (intValue i) = Itoa i"
| "String_v (stringValue s) = s"

text \<open>
  \<^verbatim>\<open>FlagSet.Var\<close> defines a flag: its default text is the value's \<^verbatim>\<open>String()\<close>. (It
  panics when the name is defined already; the flag sets here define each name once.)
  \<^verbatim>\<open>Bool\<close>, \<^verbatim>\<open>Int\<close> and \<^verbatim>\<open>String\<close> define a flag of that kind.
\<close>

definition FlagSet_Var :: "FlagSet \<Rightarrow> flag_Value \<Rightarrow> string \<Rightarrow> string \<Rightarrow> FlagSet" where
  "FlagSet_Var f value' name' usage =
     f\<lparr>formal := formal f @
        [\<lparr>Name = name', Usage = usage, Value = value', DefValue = String_v value'\<rparr>]\<rparr>"

definition FlagSet_Bool :: "FlagSet \<Rightarrow> string \<Rightarrow> bool \<Rightarrow> string \<Rightarrow> FlagSet" where
  "FlagSet_Bool f name' value' usage = FlagSet_Var f (boolValue value') name' usage"

definition FlagSet_Int :: "FlagSet \<Rightarrow> string \<Rightarrow> int \<Rightarrow> string \<Rightarrow> FlagSet" where
  "FlagSet_Int f name' value' usage = FlagSet_Var f (intValue value') name' usage"

definition FlagSet_String :: "FlagSet \<Rightarrow> string \<Rightarrow> string \<Rightarrow> string \<Rightarrow> FlagSet" where
  "FlagSet_String f name' value' usage = FlagSet_Var f (stringValue value') name' usage"

text \<open>
  \<^verbatim>\<open>FlagSet.Parse\<close> stops at the first argument that is not a flag. On arguments the first
  of which is not a flag (or on none) it leaves them all; \<open>Parse_args\<close> is \<^verbatim>\<open>Parse\<close> on
  such arguments only.
\<close>

definition Parse_args :: "FlagSet \<Rightarrow> string list \<Rightarrow> int + FlagSet" where
  "Parse_args f arguments' = Inr (f\<lparr>fs_args := arguments'\<rparr>)"

subsection \<open>The package's data\<close>

text \<open>
  \<^verbatim>\<open>reflect.Method\<close>: the type of the method expression and the function itself. The
  function reads the flag values that were parsed into the command's flag set (passed
  explicitly) and either panics (\<open>Inl\<close>) or returns its results.
\<close>

record method_r =
  Type :: func_type
  Func :: "FlagSet \<Rightarrow> value list \<Rightarrow> string + value list"

text \<open>
  The interface \<^verbatim>\<open>command\<close>: \<^verbatim>\<open>String()\<close>, \<^verbatim>\<open>Flags(flags)\<close>, which defines flags on the
  flag set it is given, and the method set of the dynamic type, as
  \<^verbatim>\<open>reflect.TypeOf(command).MethodByName\<close> sees it.
\<close>

record command =
  String_c :: string
  Flags :: "FlagSet \<Rightarrow> FlagSet"
  MethodByName :: "string \<Rightarrow> method_r option"

record rule =
  command :: command
  "method" :: method_r
  slice :: bool
  name :: string
  options :: FlagSet
  arguments :: string

record application =
  app_name :: string
  version :: string
  rules :: "string \<rightharpoonup> rule"

datatype error = errRunMissing | errRunString | errRunReturnValue

text \<open>The calls \<^verbatim>\<open>Rule\<close> makes outside the application: what it did, in order.\<close>

datatype event = flag_NewFlagSet string | command_Flags string

subsection \<open>Rule\<close>

text \<open>
  \<^verbatim>\<open>for i := 1; i < in-1; i++ { if method.Type.In(i).Kind() != reflect.String { return errRunString } }\<close>
\<close>

function Rule_strings :: "func_type \<Rightarrow> nat \<Rightarrow> nat \<Rightarrow> error option" where
  "Rule_strings t n_in i =
     (if i < n_in - 1 then
        (if Kind (In t i) \<noteq> reflect_String then Some errRunString
         else Rule_strings t n_in (Suc i))
      else None)"
  by pat_completeness auto
termination
  by (relation "measure (\<lambda>(t, n_in, i). n_in - 1 - i)") auto

declare Rule_strings.simps [simp del]

text \<open>
  \<^verbatim>\<open>Rule\<close> returns the error (\<open>None\<close> is \<^verbatim>\<open>nil\<close>), the application as it leaves it, and
  the outside calls it made.
\<close>

definition Rule :: "application \<Rightarrow> command \<Rightarrow> string \<Rightarrow> string \<Rightarrow>
    error option \<times> application \<times> event list" where
  "Rule a command' name' arguments' =
     (case MethodByName command' ''Run'' of
        None \<Rightarrow> (Some errRunMissing, a, [])
      | Some method' \<Rightarrow>
          let n_in = NumIn (Type method') in
          (case Rule_strings (Type method') n_in 1 of
             Some e \<Rightarrow> (Some e, a, [])
           | None \<Rightarrow>
              (case (if n_in > 1 then
                       let final = In (Type method') (n_in - 1) in
                       if Kind final = reflect_Slice
                          \<and> map_option Kind (Elem final) = Some reflect_String
                       then Inr True
                       else if Kind final \<noteq> reflect_String then Inl errRunString
                       else Inr False
                     else Inr False) of
                 Inl e \<Rightarrow> (Some e, a, [])
               | Inr slice' \<Rightarrow>
                   if NumOut (Type method') \<ge> 1
                      \<and> Kind (Out (Type method') 0) \<noteq> reflect_Int
                   then (Some errRunReturnValue, a, [])
                   else
                     let options' = Flags command' (NewFlagSet name')
                     in (None,
                         a\<lparr>rules := (rules a)(name' \<mapsto>
                            \<lparr>command = command', method = method', slice = slice',
                             name = name', options = options', arguments = arguments'\<rparr>)\<rparr>,
                         [flag_NewFlagSet name', command_Flags name']))))"

subsection \<open>reflect: calling a method\<close>

datatype panic =
    Call_too_few_arguments
  | Call_too_many_arguments
  | Call_zero_Value_argument
  | Call_wrong_type gotype gotype
  | Call_cannot_use gotype gotype
  | Elem_of_invalid_type
  | Append_of_non_slice
  | Int_of_non_int
  | Repeat_negative_count
  | command_panic string

text \<open>The type of a valid Value; the receiver has the command's dynamic type.\<close>

fun Value_Type :: "gotype \<Rightarrow> value \<Rightarrow> gotype option" where
  "Value_Type r Invalid = None"
| "Value_Type r V_receiver = Some r"
| "Value_Type r (V_string _) = Some T_string"
| "Value_Type r (V_strings _) = Some (T_slice T_string)"
| "Value_Type r (V_int _) = Some T_int"
| "Value_Type r (V_int64 _) = Some T_int64"
| "Value_Type r (V_other t) = Some t"

text \<open>
  The first input whose type is not the type of the parameter: \<^verbatim>\<open>Call\<close> panics on it
  (for the types of the model, assignable is identical).
\<close>

fun Call_types :: "gotype \<Rightarrow> value list \<Rightarrow> gotype list \<Rightarrow> panic option" where
  "Call_types r (x # xs) (targ # ts) =
     (case Value_Type r x of
        None \<Rightarrow> Some Call_zero_Value_argument
      | Some xt \<Rightarrow> if xt \<noteq> targ then Some (Call_wrong_type xt targ)
                   else Call_types r xs ts)"
| "Call_types r _ _ = None"

text \<open>
  For a variadic function \<^verbatim>\<open>Call\<close> takes the inputs from the final parameter on one by
  one: each must have the element type of the final parameter, or \<^verbatim>\<open>Call\<close> panics with
  "cannot use ... as type ... in Call". It then makes the slice of them.
\<close>

fun Call_rest :: "gotype \<Rightarrow> gotype \<Rightarrow> value list \<Rightarrow> panic option" where
  "Call_rest r elem [] = None"
| "Call_rest r elem (x # xs) =
     (case Value_Type r x of
        None \<Rightarrow> Some Call_zero_Value_argument
      | Some xt \<Rightarrow> if xt \<noteq> elem then Some (Call_cannot_use xt elem)
                   else Call_rest r elem xs)"

fun strings_of :: "value list \<Rightarrow> string list" where
  "strings_of [] = []"
| "strings_of (V_string s # xs) = s # strings_of xs"
| "strings_of (_ # xs) = strings_of xs"

definition MakeSlice :: "gotype \<Rightarrow> value list \<Rightarrow> value" where
  "MakeSlice elem xs =
     (if elem = T_string then V_strings (strings_of xs) else V_other (T_slice elem))"

text \<open>
  \<^verbatim>\<open>method.Func.Call(in)\<close>. With \<open>n\<close> the number of inputs, less one for a variadic
  function: there must be at least \<open>n\<close> inputs, and no more unless the function is
  variadic; none may be the zero Value; the first \<open>n\<close> must have the types of the
  parameters; for a variadic function the rest is made into the final slice as above.
  Then the function runs on the inputs after the receiver.
\<close>

definition Call :: "method_r \<Rightarrow> FlagSet \<Rightarrow> value list \<Rightarrow> panic + value list" where
  "Call m fs ins =
     (let t = Type m;
          isVariadic = IsVariadic t;
          n = (if isVariadic then NumIn t - 1 else NumIn t)
      in
      if length ins < n then Inl Call_too_few_arguments
      else if \<not> isVariadic \<and> length ins > n then Inl Call_too_many_arguments
      else if Invalid \<in> set ins then Inl Call_zero_Value_argument
      else case Call_types (recv t) ins (take n (recv t # params t)) of
             Some p \<Rightarrow> Inl p
           | None \<Rightarrow>
               (case (if isVariadic then
                        (case Elem (In t n) of
                           None \<Rightarrow> Inl Elem_of_invalid_type
                         | Some elem \<Rightarrow>
                             (case Call_rest (recv t) elem (drop n ins) of
                                Some p \<Rightarrow> Inl p
                              | None \<Rightarrow> Inr (take n ins @ [MakeSlice elem (drop n ins)])))
                      else Inr ins) of
                  Inl p \<Rightarrow> Inl p
                | Inr ins' \<Rightarrow>
                    (case Func m fs (tl ins') of
                       Inl msg \<Rightarrow> Inl (command_panic msg)
                     | Inr rv \<Rightarrow> Inr rv)))"

text \<open>\<^verbatim>\<open>reflect.Append(s, x)\<close> panics unless \<open>s\<close> is a slice; here a slice of strings.\<close>

fun Append :: "value \<Rightarrow> value \<Rightarrow> panic + value" where
  "Append (V_strings xs) (V_string x) = Inr (V_strings (xs @ [x]))"
| "Append _ _ = Inl Append_of_non_slice"

text \<open>\<^verbatim>\<open>Value.Int()\<close> panics unless the kind is one of the signed integers.\<close>

fun Int_v :: "value \<Rightarrow> panic + int" where
  "Int_v (V_int n) = Inr n"
| "Int_v (V_int64 n) = Inr n"
| "Int_v _ = Inl Int_of_non_int"

subsection \<open>strconv and strings\<close>

text \<open>
  \<^verbatim>\<open>strconv.Atoi\<close>: an optional sign and decimal digits, at least one; the value must fit
  \<^verbatim>\<open>int\<close> (64 bits). \<open>None\<close> is a non-nil error.
\<close>

fun Atoi_digits :: "string \<Rightarrow> nat \<Rightarrow> nat option" where
  "Atoi_digits [] n = Some n"
| "Atoi_digits (ch # s) n =
     (let d = (of_char ch :: nat) in
      if 48 \<le> d \<and> d \<le> 57 then Atoi_digits s (n * 10 + (d - 48)) else None)"

definition Atoi :: "string \<Rightarrow> int option" where
  "Atoi s0 =
     (let neg = (s0 \<noteq> [] \<and> hd s0 = CHR ''-'');
          s = (if s0 \<noteq> [] \<and> (hd s0 = CHR ''-'' \<or> hd s0 = CHR ''+'') then tl s0 else s0)
      in if s = [] then None
         else case Atoi_digits s 0 of
                None \<Rightarrow> None
              | Some n \<Rightarrow>
                  let v = (if neg then - int n else int n) in
                  if - (2 ^ 63) \<le> v \<and> v < 2 ^ 63 then Some v else None)"

text \<open>\<^verbatim>\<open>strings.Repeat(s, count)\<close> panics on a negative count.\<close>

definition Repeat :: "string \<Rightarrow> int \<Rightarrow> panic + string" where
  "Repeat s count =
     (if count < 0 then Inl Repeat_negative_count
      else Inr (concat (replicate (nat count) s)))"

subsection \<open>Usage\<close>

text \<open>\<^verbatim>\<open>rule.String()\<close> formats the rule for usage printing.\<close>

definition rule_String :: "rule \<Rightarrow> string" where
  "rule_String r =
     (let command' = name r;
          options' = (VisitAll (options r) \<noteq> []);
          command' = (if options' then command' @ '' [options]'' else command');
          command' = (if length (arguments r) > 0 then command' @ '' '' @ arguments r
                      else command')
      in command')"

text \<open>
  Go leaves the order in which a map is ranged over open. The functions that range over
  \<^verbatim>\<open>a.rules\<close> take the order as a list of the keys.
\<close>

definition range_rules :: "application \<Rightarrow> string list \<Rightarrow> rule list" where
  "range_rules a order = List.map_filter (rules a) order"

definition getRuleLength :: "application \<Rightarrow> string list \<Rightarrow> nat" where
  "getRuleLength a order =
     fold (\<lambda>rule' max'. let length' = length (rule_String rule') in
                          if length' > max' then length' else max')
          (range_rules a order) 0 + 3"

text \<open>
  What is written to the writer, and the panic that stopped the writing, if any.
\<close>

type_synonym written = "string \<times> panic option"

fun print_each :: "('a \<Rightarrow> written) \<Rightarrow> 'a list \<Rightarrow> written" where
  "print_each f [] = ([], None)"
| "print_each f (x # xs) =
     (case f x of
        (s, Some p) \<Rightarrow> (s, Some p)
      | (s, None) \<Rightarrow> (case print_each f xs of (s', r) \<Rightarrow> (s @ s', r)))"

text \<open>The placeholder shown for a default value (the variable \<^verbatim>\<open>value\<close>).\<close>

definition printUsage_value :: "string \<Rightarrow> string" where
  "printUsage_value value' =
     (if value' = [] then ''<value>''
      else if value' = ''false'' then []
      else if Atoi value' \<noteq> None then ''<n>''
      else [CHR 0x22] @ value' @ [CHR 0x22])"

definition printUsage_option :: "Flag \<Rightarrow> string" where
  "printUsage_option flag =
     (let value' = printUsage_value (DefValue flag);
          option' = ''-'' @ Name flag
      in if value' \<noteq> [] then option' @ ''='' @ value' else option')"

text \<open>The function passed to \<^verbatim>\<open>VisitAll\<close>: the line of one flag.\<close>

definition printUsage_flag :: "nat \<Rightarrow> Flag \<Rightarrow> written" where
  "printUsage_flag length' flag =
     (let option' = printUsage_option flag in
      case Repeat '' '' (int length' - int (length option') - 2) of
        Inl p \<Rightarrow> ([], Some p)
      | Inr spaces \<Rightarrow> (''    '' @ option' @ spaces @ Usage flag @ [CHR 0x0A], None))"

definition printUsage_rule :: "nat \<Rightarrow> rule \<Rightarrow> written" where
  "printUsage_rule length' rule' =
     (case Repeat '' '' (int length' - int (length (rule_String rule'))) of
        Inl p \<Rightarrow> ([], Some p)
      | Inr spaces \<Rightarrow>
          (case print_each (printUsage_flag length') (VisitAll (options rule')) of
             (s, r) \<Rightarrow>
               (''  '' @ rule_String rule' @ spaces @ String_c (command rule') @ [CHR 0x0A] @ s,
                r)))"

definition printUsage :: "application \<Rightarrow> string list \<Rightarrow> written" where
  "printUsage a order =
     (let length' = getRuleLength a order in
      case print_each (printUsage_rule length') (range_rules a order) of
        (s, Some p) \<Rightarrow>
          (''Usage: '' @ app_name a @ '' <cmd> [options] [<args>]'' @ [CHR 0x0A] @ s, Some p)
      | (s, None) \<Rightarrow>
          (''Usage: '' @ app_name a @ '' <cmd> [options] [<args>]'' @ [CHR 0x0A] @ s
             @ [CHR 0x0A], None))"

subsection \<open>Run\<close>

text \<open>
  \<^verbatim>\<open>for i := 1; i < len(params)-1; i++ { ... }\<close>: all but the last parameter.
\<close>

function Run_set :: "string list \<Rightarrow> nat \<Rightarrow> value list \<Rightarrow> value list" where
  "Run_set args i params' =
     (if i < length params' - 1 then
        Run_set args (Suc i)
          (if i < length args + 1 then params'[i := V_string (args ! (i - 1))]
           else params'[i := V_string []])
      else params')"
  by pat_completeness auto
termination
  by (relation "measure (\<lambda>(args, i, params'). length params' - 1 - i)") auto

declare Run_set.simps [simp del]

text \<open>
  \<^verbatim>\<open>for j := i - 1; j < len(args); j++ { params[i] = reflect.Append(params[i], ...) }\<close>
\<close>

function Run_append :: "string list \<Rightarrow> nat \<Rightarrow> nat \<Rightarrow> value list \<Rightarrow> panic + value list" where
  "Run_append args i j params' =
     (if j < length args then
        (case Append (params' ! i) (V_string (args ! j)) of
           Inl p \<Rightarrow> Inl p
         | Inr v \<Rightarrow> Run_append args i (Suc j) (params'[i := v]))
      else Inr params')"
  by pat_completeness auto
termination
  by (relation "measure (\<lambda>(args, i, j, params'). length args - j)") auto

declare Run_append.simps [simp del]

text \<open>The calling parameters \<^verbatim>\<open>Run\<close> prepares for a rule from the arguments left.\<close>

definition Run_params :: "rule \<Rightarrow> string list \<Rightarrow> panic + value list" where
  "Run_params rule' args =
     (let params' = replicate (NumIn (Type (method rule'))) Invalid;
          params' = params'[0 := V_receiver];
          params' = Run_set args 1 params';
          i = length params' - 1
      in if slice rule' then
           Run_append args i (i - 1) (params'[i := V_strings []])
         else if i > 1 then
           (if i < length args + 1 then Inr (params'[i := V_string (args ! (i - 1))])
            else Inr (params'[i := V_string []]))
         else Inr params')"

text \<open>How the process ends, and what \<^verbatim>\<open>Run\<close> itself wrote to standard error before.\<close>

datatype outcome = Exit int | Panic panic

text \<open>
  \<^verbatim>\<open>Run\<close>, after the process-wide \<^verbatim>\<open>flag.Parse()\<close>: \<open>args\<close> is \<^verbatim>\<open>flag.Args()\<close>.
  \<open>Parse\<close> is \<^verbatim>\<open>FlagSet.Parse\<close> with \<^verbatim>\<open>flag.ExitOnError\<close>: it exits the process with a
  code (\<open>Inl\<close>) or returns the flag set with the flag values set and the arguments left.
\<close>

definition Run :: "application \<Rightarrow> (FlagSet \<Rightarrow> string list \<Rightarrow> int + FlagSet) \<Rightarrow>
    string list \<Rightarrow> string list \<Rightarrow> string \<times> outcome" where
  "Run a Parse order args =
     (if length args < 1 then
        (case printUsage a order of
           (s, Some p) \<Rightarrow> (s, Panic p)
         | (s, None) \<Rightarrow> (s, Exit 1))
      else
        let name' = args ! 0 in
        case rules a name' of
          None \<Rightarrow>
            (case printUsage a order of
               (s, Some p) \<Rightarrow> (''Error: invalid command '' @ name' @ [CHR 0x0A] @ s, Panic p)
             | (s, None) \<Rightarrow> (''Error: invalid command '' @ name' @ [CHR 0x0A] @ s, Exit 1))
        | Some rule' \<Rightarrow>
            (case Parse (options rule') (tl args) of
               Inl code \<Rightarrow> ([], Exit code)
             | Inr options' \<Rightarrow>
                 (case Run_params rule' (Args options') of
                    Inl p \<Rightarrow> ([], Panic p)
                  | Inr params' \<Rightarrow>
                      (case Call (method rule') options' params' of
                         Inl p \<Rightarrow> ([], Panic p)
                       | Inr rv \<Rightarrow>
                           if length rv > 0 then
                             (case Int_v (rv ! 0) of
                                Inl p \<Rightarrow> ([], Panic p)
                              | Inr code \<Rightarrow> ([], Exit code))
                           else ([], Exit 0)))))"

subsection \<open>Commands\<close>

text \<open>
  The commands of the package's tests. \<^verbatim>\<open>runFull\<close> has
  \<^verbatim>\<open>Run(arg1, arg2 string, extra []string) int { return 2 }\<close> and defines the flag
  \<^verbatim>\<open>flags.Int("number", 0, "some number")\<close>; \<^verbatim>\<open>runErrMissing\<close> has no \<^verbatim>\<open>Run\<close>;
  \<^verbatim>\<open>runErrString\<close> has \<^verbatim>\<open>Run(n int)\<close>; \<^verbatim>\<open>runErrReturnValue\<close> has \<^verbatim>\<open>Run() string\<close>.
  The last three embed \<^verbatim>\<open>NullFlags\<close>, whose \<^verbatim>\<open>Flags\<close> does nothing. Of the method set
  only \<^verbatim>\<open>Run\<close> is listed.
\<close>

definition NullFlags :: "FlagSet \<Rightarrow> FlagSet" where
  "NullFlags flags = flags"

definition runFull :: command where
  "runFull =
     \<lparr>String_c = ''runFull help'',
      Flags = (\<lambda>flags. FlagSet_Int flags ''number'' 0 ''some number''),
      MethodByName = (\<lambda>m. if m = ''Run'' then
         Some \<lparr>Type = \<lparr>recv = T_ptr (T_struct ''runFull''),
                       params = [T_string, T_string, T_slice T_string],
                       results = [T_int], IsVariadic = False\<rparr>,
               Func = (\<lambda>flags ins. Inr [V_int 2])\<rparr>
         else None)\<rparr>"

definition runErrMissing :: command where
  "runErrMissing =
     \<lparr>String_c = ''missing run method'', Flags = NullFlags,
      MethodByName = (\<lambda>m. None)\<rparr>"

definition runErrString :: command where
  "runErrString =
     \<lparr>String_c = ''invalid param type'', Flags = NullFlags,
      MethodByName = (\<lambda>m. if m = ''Run'' then
         Some \<lparr>Type = \<lparr>recv = T_ptr (T_struct ''runErrString''),
                       params = [T_int], results = [], IsVariadic = False\<rparr>,
               Func = (\<lambda>flags ins. Inr [])\<rparr>
         else None)\<rparr>"

definition runErrReturnValue :: command where
  "runErrReturnValue =
     \<lparr>String_c = ''invalid return value'', Flags = NullFlags,
      MethodByName = (\<lambda>m. if m = ''Run'' then
         Some \<lparr>Type = \<lparr>recv = T_ptr (T_struct ''runErrReturnValue''),
                       params = [], results = [T_string], IsVariadic = False\<rparr>,
               Func = (\<lambda>flags ins. Inr [V_string ''fail''])\<rparr>
         else None)\<rparr>"

text \<open>
  Further commands, each with \<^verbatim>\<open>NullFlags\<close>: \<^verbatim>\<open>Run(key string)\<close>; \<^verbatim>\<open>Run()\<close>;
  \<^verbatim>\<open>Run(n int, s string)\<close>; \<^verbatim>\<open>Run(n int) string\<close>;
  \<^verbatim>\<open>Run() (int, string) { return 3, "x" }\<close>.
\<close>

definition command_of :: "string \<Rightarrow> gotype list \<Rightarrow> gotype list \<Rightarrow> value list \<Rightarrow> command" where
  "command_of s ps rs rv =
     \<lparr>String_c = s, Flags = NullFlags,
      MethodByName = (\<lambda>m. if m = ''Run'' then
         Some \<lparr>Type = \<lparr>recv = T_ptr (T_struct s), params = ps, results = rs, IsVariadic = False\<rparr>,
               Func = (\<lambda>flags ins. Inr rv)\<rparr>
         else None)\<rparr>"

definition runOne :: command where
  "runOne = command_of ''runOne'' [T_string] [] []"

definition runNone :: command where
  "runNone = command_of ''runNone'' [] [] []"

definition runIntString :: command where
  "runIntString = command_of ''runIntString'' [T_int, T_string] [] []"

definition runIntReturnsString :: command where
  "runIntReturnsString = command_of ''runIntReturnsString'' [T_int] [T_string] [V_string ''fail'']"

definition runReturnsIntString :: command where
  "runReturnsIntString = command_of ''runReturnsIntString'' [] [T_int, T_string] [V_int 3, V_string ''x'']"

text \<open>The application \<^verbatim>\<open>New("myapp", "0.0.1")\<close> starts from, before any rule.\<close>

text \<open>A command with \<^verbatim>\<open>Run(a string, rest ...string)\<close> and \<^verbatim>\<open>NullFlags\<close>.\<close>

definition runVariadic :: command where
  "runVariadic =
     \<lparr>String_c = ''runVariadic'', Flags = NullFlags,
      MethodByName = (\<lambda>m. if m = ''Run'' then
         Some \<lparr>Type = \<lparr>recv = T_ptr (T_struct ''runVariadic''),
                       params = [T_string, T_slice T_string], results = [],
                       IsVariadic = True\<rparr>,
               Func = (\<lambda>flags ins. Inr [])\<rparr>
         else None)\<rparr>"

definition myapp :: application where
  "myapp = \<lparr>app_name = ''myapp'', version = ''0.0.1'', rules = Map.empty\<rparr>"


text \<open>
  \<^verbatim>\<open>app.Rule(&runFull{}, "full", "<arg1> <arg2> [<extra>]")\<close>, as in the test
  \<^verbatim>\<open>TestRuleRunFull\<close>, and the registration of \<^verbatim>\<open>Run(key string)\<close>.
\<close>

definition full_app :: application where
  "full_app = fst (snd (Rule myapp runFull ''full'' ''<arg1> <arg2> [<extra>]''))"

definition one_app :: application where
  "one_app = fst (snd (Rule myapp runOne ''one'' ''<key>''))"

definition variadic_app :: application where
  "variadic_app = fst (snd (Rule myapp runVariadic ''variadic'' ''<a> [<rest>]''))"

text \<open>
  A command that defines a boolean flag whose default is true, and the command \<^verbatim>\<open>add\<close>
  of the package's README, with
  \<^verbatim>\<open>Run(key, username string, extra []string)\<close> and the flags
  \<^verbatim>\<open>flags.Bool("show-extra", false, "Print extra arguments.")\<close>,
  \<^verbatim>\<open>flags.String("example", "", "An example string option.")\<close> and
  \<^verbatim>\<open>flags.Int("number", 0, "An example int option.")\<close>, registered as
  \<^verbatim>\<open>app.Rule(&add{}, "add", "<key> <username> [<extra>]")\<close>.
\<close>

definition runVerbose :: command where
  "runVerbose =
     \<lparr>String_c = ''Be verbose.'',
      Flags = (\<lambda>flags. FlagSet_Bool flags ''verbose'' True ''Be loud.''),
      MethodByName = (\<lambda>m. if m = ''Run'' then
         Some \<lparr>Type = \<lparr>recv = T_ptr (T_struct ''runVerbose''), params = [], results = [], IsVariadic = False\<rparr>,
               Func = (\<lambda>flags ins. Inr [])\<rparr>
         else None)\<rparr>"

definition verbose_app :: application where
  "verbose_app = fst (snd (Rule myapp runVerbose ''verbose'' []))"

definition add_command :: command where
  "add_command =
     \<lparr>String_c = ''Add record key with username.'',
      Flags = (\<lambda>flags.
         FlagSet_Int
           (FlagSet_String
              (FlagSet_Bool flags ''show-extra'' False ''Print extra arguments.'')
              ''example'' [] ''An example string option.'')
           ''number'' 0 ''An example int option.''),
      MethodByName = (\<lambda>m. if m = ''Run'' then
         Some \<lparr>Type = \<lparr>recv = T_ptr (T_struct ''add''),
                       params = [T_string, T_string, T_slice T_string], results = [], IsVariadic = False\<rparr>,
               Func = (\<lambda>flags ins. Inr [])\<rparr>
         else None)\<rparr>"

definition add_app :: application where
  "add_app = fst (snd (Rule myapp add_command ''add'' ''<key> <username> [<extra>]''))"

subsection \<open>Notions used in the statements\<close>

text \<open>
  The final parameter is a slice of strings: the condition under which \<^verbatim>\<open>Rule\<close> sets
  \<^verbatim>\<open>slice = true\<close>.
\<close>

definition final_is_slice :: "func_type \<Rightarrow> bool" where
  "final_is_slice t =
     (NumIn t > 1 \<and> Kind (In t (NumIn t - 1)) = reflect_Slice
      \<and> map_option Kind (Elem (In t (NumIn t - 1))) = Some reflect_String)"

text \<open>The rule \<^verbatim>\<open>Rule\<close> stores for a command whose \<^verbatim>\<open>Run\<close> method is \<open>m\<close>.\<close>

definition new_rule :: "command \<Rightarrow> method_r \<Rightarrow> string \<Rightarrow> string \<Rightarrow> rule" where
  "new_rule c m n u =
     \<lparr>command = c, method = m, slice = final_is_slice (Type m), name = n,
      options = Flags c (NewFlagSet n), arguments = u\<rparr>"

section \<open>Registration\<close>

subsection \<open>The loop over the parameters, and \<^verbatim>\<open>Rule\<close> in closed form\<close>

lemma Rule_strings_iff:
  "Rule_strings t n k =
     (if \<exists>i. k \<le> i \<and> i < n - 1 \<and> Kind (In t i) \<noteq> reflect_String
      then Some errRunString else None)"
proof (induction t n k rule: Rule_strings.induct)
  case (1 t n_in i)
  show ?case
  proof (cases "i < n_in - 1")
    case False
    then show ?thesis by (simp add: Rule_strings.simps)
  next
    case True
    show ?thesis
    proof (cases "Kind (In t i) = reflect_String")
      case False
      with True show ?thesis by (auto simp: Rule_strings.simps)
    next
      case str: True
      have "(\<exists>j. i \<le> j \<and> j < n_in - 1 \<and> Kind (In t j) \<noteq> reflect_String)
          = (\<exists>j. Suc i \<le> j \<and> j < n_in - 1 \<and> Kind (In t j) \<noteq> reflect_String)"
        using str by (metis Suc_leD Suc_leI le_neq_implies_less)
      with 1 True str show ?thesis by (simp add: Rule_strings.simps)
    qed
  qed
qed

lemma Rule_eq:
  assumes "MethodByName c ''Run'' = Some m"
  shows "Rule a c n u =
     (if (\<exists>i. 1 \<le> i \<and> i < NumIn (Type m) - 1 \<and> Kind (In (Type m) i) \<noteq> reflect_String)
         \<or> (NumIn (Type m) > 1 \<and> \<not> final_is_slice (Type m)
             \<and> Kind (In (Type m) (NumIn (Type m) - 1)) \<noteq> reflect_String)
      then (Some errRunString, a, [])
      else if NumOut (Type m) \<ge> 1 \<and> Kind (Out (Type m) 0) \<noteq> reflect_Int
      then (Some errRunReturnValue, a, [])
      else (None, a\<lparr>rules := (rules a)(n \<mapsto> new_rule c m n u)\<rparr>,
            [flag_NewFlagSet n, command_Flags n]))"
proof (cases "\<exists>i. 1 \<le> i \<and> i < NumIn (Type m) - 1 \<and> Kind (In (Type m) i) \<noteq> reflect_String")
  case True
  then have "Rule_strings (Type m) (NumIn (Type m)) 1 = Some errRunString"
    by (simp add: Rule_strings_iff)
  with True assms show ?thesis by (simp add: Rule_def Let_def)
next
  case False
  then have none: "Rule_strings (Type m) (NumIn (Type m)) 1 = None"
    by (simp add: Rule_strings_iff)
  show ?thesis
  proof (cases "NumIn (Type m) > 1")
    case True
    with False none assms show ?thesis
      by (simp add: Rule_def Let_def final_is_slice_def new_rule_def)
  next
    case le: False
    with False none assms show ?thesis
      by (simp add: Rule_def Let_def final_is_slice_def new_rule_def)
  qed
qed

text \<open>The \<^verbatim>\<open>Run\<close> methods of the commands above, and what \<^verbatim>\<open>Rule\<close> returns for them.\<close>

lemma command_of_Run:
  "MethodByName (command_of s ps rs rv) ''Run''
     = Some \<lparr>Type = \<lparr>recv = T_ptr (T_struct s), params = ps, results = rs, IsVariadic = False\<rparr>,
              Func = (\<lambda>flags ins. Inr rv)\<rparr>"
  by (simp add: command_of_def)

lemma runFull_Run:
  "MethodByName runFull ''Run''
     = Some \<lparr>Type = \<lparr>recv = T_ptr (T_struct ''runFull''),
                      params = [T_string, T_string, T_slice T_string],
                      results = [T_int], IsVariadic = False\<rparr>,
              Func = (\<lambda>flags ins. Inr [V_int 2])\<rparr>"
  by (simp add: runFull_def)

lemma Rule_two_strings_slice:
  assumes "MethodByName c ''Run'' = Some m"
    and "params (Type m) = [T_string, T_string, T_slice T_string]"
    and "results (Type m) = [] \<or> results (Type m) = [T_int]"
  shows "Rule a c n u =
     (None, a\<lparr>rules := (rules a)(n \<mapsto> new_rule c m n u)\<rparr>,
      [flag_NewFlagSet n, command_Flags n])"
proof -
  have "Kind (In (Type m) i) = reflect_String" if "1 \<le> i" "i < NumIn (Type m) - 1" for i
  proof -
    from that have "i = 1 \<or> i = 2" by (auto simp: NumIn_def assms(2))
    then show ?thesis by (auto simp: In_def assms(2))
  qed
  then have strings:
    "\<not> (\<exists>i. 1 \<le> i \<and> i < NumIn (Type m) - 1 \<and> Kind (In (Type m) i) \<noteq> reflect_String)"
    by blast
  have final: "final_is_slice (Type m)"
    by (simp add: final_is_slice_def NumIn_def In_def assms(2))
  have out: "\<not> (NumOut (Type m) \<ge> 1 \<and> Kind (Out (Type m) 0) \<noteq> reflect_Int)"
    using assms(3) by (auto simp: NumOut_def Out_def)
  show ?thesis
    unfolding Rule_eq [OF assms(1)]
    using strings final out by simp
qed

lemma Rule_runFull:
  "Rule a runFull n u =
     (None, a\<lparr>rules := (rules a)(n \<mapsto> new_rule runFull (the (MethodByName runFull ''Run'')) n u)\<rparr>,
      [flag_NewFlagSet n, command_Flags n])"
  by (subst Rule_two_strings_slice [of runFull "the (MethodByName runFull ''Run'')"])
     (simp_all add: runFull_def)

lemma full_app_rule:
  "rules full_app ''full''
     = Some (new_rule runFull (the (MethodByName runFull ''Run'')) ''full''
               ''<arg1> <arg2> [<extra>]'')"
  by (simp add: full_app_def Rule_runFull)

lemma Rule_runErrString:
  "Rule a runErrString n u = (Some errRunString, a, [])"
proof -
  have m: "MethodByName runErrString ''Run''
     = Some \<lparr>Type = \<lparr>recv = T_ptr (T_struct ''runErrString''),
                      params = [T_int], results = [], IsVariadic = False\<rparr>,
              Func = (\<lambda>flags ins. Inr [])\<rparr>"
    by (simp add: runErrString_def)
  show ?thesis
    unfolding Rule_eq [OF m]
    by (simp add: NumIn_def In_def final_is_slice_def)
qed

subsection \<open>A command without \<^verbatim>\<open>Run\<close>\<close>

text \<open>
  Claim C2. For every handler that has no method named \<^verbatim>\<open>Run\<close>, \<^verbatim>\<open>Rule\<close> returns
  \<^verbatim>\<open>errRunMissing\<close>, whatever else holds of the handler, the name and the application:
  nothing else is checked before. The application is left as it was and no outside
  call was made.
\<close>

theorem Rule_missing:
  "MethodByName c ''Run'' = None \<Longrightarrow> Rule a c n u = (Some errRunMissing, a, [])"
  by (simp add: Rule_def)

theorem Rule_missing_witness:
  "MethodByName runErrMissing ''Run'' = None
   \<and> Rule myapp runErrMissing ''missing'' [] = (Some errRunMissing, myapp, [])"
  using Rule_missing [of runErrMissing myapp "''missing''" "[]"]
  by (simp add: runErrMissing_def)

subsection \<open>A parameter before the last that is not a string\<close>

text \<open>
  Claim C3. For every handler whose \<^verbatim>\<open>Run\<close> method has a parameter \<open>i\<close> other than the
  last (the receiver is input 0, the last parameter is input \<open>NumIn - 1\<close>) whose kind is
  not \<^verbatim>\<open>reflect.String\<close>, \<^verbatim>\<open>Rule\<close> returns \<^verbatim>\<open>errRunString\<close>.
\<close>

theorem Rule_non_string:
  "MethodByName c ''Run'' = Some m \<Longrightarrow> 1 \<le> i \<Longrightarrow> i < NumIn (Type m) - 1 \<Longrightarrow>
   Kind (In (Type m) i) \<noteq> reflect_String \<Longrightarrow>
   Rule a c n u = (Some errRunString, a, [])"
  by (auto simp: Rule_def Rule_strings_iff Let_def)

theorem Rule_non_string_witness:
  "MethodByName runIntString ''Run''
     = Some \<lparr>Type = \<lparr>recv = T_ptr (T_struct ''runIntString''),
                      params = [T_int, T_string], results = [], IsVariadic = False\<rparr>,
              Func = (\<lambda>flags ins. Inr [])\<rparr>
   \<and> (1::nat) \<le> 1
   \<and> 1 < NumIn \<lparr>recv = T_ptr (T_struct ''runIntString''),
                  params = [T_int, T_string], results = [], IsVariadic = False\<rparr> - 1
   \<and> Kind (In \<lparr>recv = T_ptr (T_struct ''runIntString''),
                 params = [T_int, T_string], results = [], IsVariadic = False\<rparr> 1) \<noteq> reflect_String
   \<and> Rule myapp runIntString ''string'' [] = (Some errRunString, myapp, [])"
  using Rule_non_string [of runIntString
      "\<lparr>Type = \<lparr>recv = T_ptr (T_struct ''runIntString''),
                 params = [T_int, T_string], results = [], IsVariadic = False\<rparr>,
         Func = (\<lambda>flags ins. Inr [])\<rparr>" 1 myapp "''string''" "[]"]
  by (simp add: runIntString_def command_of_Run NumIn_def In_def)

subsection \<open>The last parameter\<close>

text \<open>
  Claim C4. When the \<^verbatim>\<open>Run\<close> method has more than one input (the receiver counts, so:
  when it has a parameter), and the last one is neither of kind string nor a slice of
  strings, \<^verbatim>\<open>Rule\<close> returns \<^verbatim>\<open>errRunString\<close>. When \<^verbatim>\<open>Rule\<close> succeeds, the rule it stores
  under the name records in \<^verbatim>\<open>slice\<close> whether the last parameter is a slice of strings.
  \<^verbatim>\<open>Run\<close> does not derive this again: the parameters it prepares depend on the rule only
  through the recorded \<^verbatim>\<open>slice\<close> and the number of inputs, not through their types.
\<close>

theorem Rule_final:
  "(MethodByName c1 ''Run'' = Some m1 \<longrightarrow> NumIn (Type m1) > 1 \<longrightarrow>
      Kind (In (Type m1) (NumIn (Type m1) - 1)) \<noteq> reflect_String \<longrightarrow>
      \<not> (Kind (In (Type m1) (NumIn (Type m1) - 1)) = reflect_Slice
         \<and> map_option Kind (Elem (In (Type m1) (NumIn (Type m1) - 1))) = Some reflect_String) \<longrightarrow>
      Rule a c1 n u = (Some errRunString, a, []))
   \<and> (MethodByName c2 ''Run'' = Some m2 \<longrightarrow> Rule a c2 n u = (None, a', ev) \<longrightarrow>
        (\<exists>r. rules a' n = Some r \<and> method r = m2 \<and>
           slice r = (NumIn (Type m2) > 1
              \<and> Kind (In (Type m2) (NumIn (Type m2) - 1)) = reflect_Slice
              \<and> map_option Kind (Elem (In (Type m2) (NumIn (Type m2) - 1)))
                  = Some reflect_String)))
   \<and> (slice r1 = slice r2 \<longrightarrow> NumIn (Type (method r1)) = NumIn (Type (method r2)) \<longrightarrow>
        Run_params r1 args = Run_params r2 args)"
proof (intro conjI impI)
  assume "MethodByName c1 ''Run'' = Some m1" "NumIn (Type m1) > 1"
    "Kind (In (Type m1) (NumIn (Type m1) - 1)) \<noteq> reflect_String"
    "\<not> (Kind (In (Type m1) (NumIn (Type m1) - 1)) = reflect_Slice
         \<and> map_option Kind (Elem (In (Type m1) (NumIn (Type m1) - 1))) = Some reflect_String)"
  then show "Rule a c1 n u = (Some errRunString, a, [])"
    by (simp add: Rule_eq final_is_slice_def)
next
  assume m: "MethodByName c2 ''Run'' = Some m2" and "Rule a c2 n u = (None, a', ev)"
  then have "a' = a\<lparr>rules := (rules a)(n \<mapsto> new_rule c2 m2 n u)\<rparr>"
    unfolding Rule_eq [OF m] by (simp split: if_splits)
  then show "\<exists>r. rules a' n = Some r \<and> method r = m2 \<and>
           slice r = (NumIn (Type m2) > 1
              \<and> Kind (In (Type m2) (NumIn (Type m2) - 1)) = reflect_Slice
              \<and> map_option Kind (Elem (In (Type m2) (NumIn (Type m2) - 1)))
                  = Some reflect_String)"
    by (simp add: new_rule_def final_is_slice_def)
next
  assume "slice r1 = slice r2" "NumIn (Type (method r1)) = NumIn (Type (method r2))"
  then show "Run_params r1 args = Run_params r2 args"
    by (simp add: Run_params_def)
qed

theorem Rule_final_witness:
  "(MethodByName runErrString ''Run'' = Some (the (MethodByName runErrString ''Run''))
    \<and> NumIn (Type (the (MethodByName runErrString ''Run''))) > 1
    \<and> Kind (In (Type (the (MethodByName runErrString ''Run''))) 1) \<noteq> reflect_String
    \<and> Kind (In (Type (the (MethodByName runErrString ''Run''))) 1) \<noteq> reflect_Slice
    \<and> Rule myapp runErrString ''full'' ''<arg1> <arg2> [<extra>]''
        = (Some errRunString, myapp, []))
   \<and> (MethodByName runFull ''Run'' = Some (the (MethodByName runFull ''Run''))
      \<and> Rule myapp runFull ''full'' ''<arg1> <arg2> [<extra>]''
          = (None, full_app, [flag_NewFlagSet ''full'', command_Flags ''full''])
      \<and> (\<exists>r. rules full_app ''full'' = Some r
             \<and> method r = the (MethodByName runFull ''Run'') \<and> slice r = True))
   \<and> Run_params (new_rule runFull (the (MethodByName runFull ''Run'')) ''full'' [])  [''a'']
     = Run_params
         \<lparr>command = runNone, method =
            \<lparr>Type = \<lparr>recv = T_int, params = [T_int, T_int, T_int], results = [], IsVariadic = False\<rparr>,
             Func = (\<lambda>flags ins. Inr [])\<rparr>,
          slice = True, name = ''other'', options = NewFlagSet ''other'', arguments = []\<rparr>
         [''a'']"
proof -
  have e: "MethodByName runErrString ''Run'' = Some (the (MethodByName runErrString ''Run''))"
    by (simp add: runErrString_def)
  have f: "MethodByName runFull ''Run'' = Some (the (MethodByName runFull ''Run''))"
    by (simp add: runFull_def)
  have r: "Rule myapp runFull ''full'' ''<arg1> <arg2> [<extra>]''
          = (None, full_app, [flag_NewFlagSet ''full'', command_Flags ''full''])"
    by (simp add: full_app_def Rule_runFull)
  have t: "Type (the (MethodByName runErrString ''Run''))
         = \<lparr>recv = T_ptr (T_struct ''runErrString''), params = [T_int], results = [], IsVariadic = False\<rparr>"
    by (simp add: runErrString_def)
  have tf: "Type (the (MethodByName runFull ''Run''))
         = \<lparr>recv = T_ptr (T_struct ''runFull''),
            params = [T_string, T_string, T_slice T_string], results = [T_int], IsVariadic = False\<rparr>"
    by (simp add: runFull_def)
  have sl: "final_is_slice (Type (the (MethodByName runFull ''Run'')))"
    by (simp add: tf final_is_slice_def NumIn_def In_def)
  show ?thesis
    using Rule_final [where ?c1.0 = runErrString
        and ?m1.0 = "the (MethodByName runErrString ''Run'')"
        and a = myapp and n = "''full''" and u = "''<arg1> <arg2> [<extra>]''"
        and ?c2.0 = runFull and ?m2.0 = "the (MethodByName runFull ''Run'')"
        and a' = full_app and ev = "[flag_NewFlagSet ''full'', command_Flags ''full'']"
        and ?r1.0 = "new_rule runFull (the (MethodByName runFull ''Run'')) ''full'' []"
        and ?r2.0 = "\<lparr>command = runNone, method =
            \<lparr>Type = \<lparr>recv = T_int, params = [T_int, T_int, T_int], results = [], IsVariadic = False\<rparr>,
             Func = (\<lambda>flags ins. Inr [])\<rparr>,
          slice = True, name = ''other'', options = NewFlagSet ''other'', arguments = []\<rparr>"
        and args = "[''a'']"]
      e f r sl
    by (simp add: t tf NumIn_def In_def new_rule_def)
qed

subsection \<open>The first result\<close>

text \<open>
  Claim C5 says that every handler whose first result is not of kind int is refused
  with \<^verbatim>\<open>errRunReturnValue\<close>. The parameters are checked first:
  \<^verbatim>\<open>Run(n int) string\<close> is refused with \<^verbatim>\<open>errRunString\<close>.
\<close>

theorem Rule_return_value_counterexample:
  "MethodByName runIntReturnsString ''Run'' \<noteq> None
   \<and> NumOut (Type (the (MethodByName runIntReturnsString ''Run''))) \<ge> 1
   \<and> Kind (Out (Type (the (MethodByName runIntReturnsString ''Run''))) 0) \<noteq> reflect_Int
   \<and> fst (Rule myapp runIntReturnsString ''return'' []) \<noteq> Some errRunReturnValue
   \<and> fst (Rule myapp runIntReturnsString ''return'' []) = Some errRunString"
proof -
  have m: "MethodByName runIntReturnsString ''Run''
     = Some \<lparr>Type = \<lparr>recv = T_ptr (T_struct ''runIntReturnsString''),
                      params = [T_int], results = [T_string], IsVariadic = False\<rparr>,
              Func = (\<lambda>flags ins. Inr [V_string ''fail''])\<rparr>"
    by (simp add: runIntReturnsString_def command_of_Run)
  show ?thesis
    unfolding Rule_eq [OF m] m
    by (simp add: NumIn_def In_def NumOut_def Out_def final_is_slice_def)
qed

text \<open>
  Claim C5, as amended. For every handler whose \<^verbatim>\<open>Run\<close> method has a first result
  that is not of kind int:
  \<^verbatim>\<open>Rule\<close> returns \<^verbatim>\<open>errRunReturnValue\<close> when the parameters pass their checks (each
  parameter before the last is of kind string, the last is of kind string or a slice of
  strings), and \<^verbatim>\<open>errRunString\<close> when they do not; it fails in both cases. The results
  after the first are not looked at: two handlers whose \<^verbatim>\<open>Run\<close> methods differ only in
  the results after the first get the same error, or both none.
\<close>

theorem Rule_return_value:
  "(MethodByName c ''Run'' = Some m \<longrightarrow> NumOut (Type m) \<ge> 1 \<longrightarrow>
      Kind (Out (Type m) 0) \<noteq> reflect_Int \<longrightarrow>
      Rule a c n u =
        (if (\<forall>i. 1 \<le> i \<and> i < NumIn (Type m) - 1 \<longrightarrow> Kind (In (Type m) i) = reflect_String)
            \<and> (NumIn (Type m) > 1 \<longrightarrow>
                 Kind (In (Type m) (NumIn (Type m) - 1)) = reflect_String
                 \<or> (Kind (In (Type m) (NumIn (Type m) - 1)) = reflect_Slice
                    \<and> map_option Kind (Elem (In (Type m) (NumIn (Type m) - 1)))
                        = Some reflect_String))
         then (Some errRunReturnValue, a, [])
         else (Some errRunString, a, [])))
   \<and> (MethodByName c1 ''Run'' = Some m1 \<longrightarrow> MethodByName c2 ''Run'' = Some m2 \<longrightarrow>
        recv (Type m1) = recv (Type m2) \<longrightarrow> params (Type m1) = params (Type m2) \<longrightarrow>
        take 1 (results (Type m1)) = take 1 (results (Type m2)) \<longrightarrow>
        fst (Rule a1 c1 n1 u1) = fst (Rule a2 c2 n2 u2))"
proof (intro conjI impI)
  assume "MethodByName c ''Run'' = Some m" "NumOut (Type m) \<ge> 1"
    "Kind (Out (Type m) 0) \<noteq> reflect_Int"
  then show "Rule a c n u =
        (if (\<forall>i. 1 \<le> i \<and> i < NumIn (Type m) - 1 \<longrightarrow> Kind (In (Type m) i) = reflect_String)
            \<and> (NumIn (Type m) > 1 \<longrightarrow>
                 Kind (In (Type m) (NumIn (Type m) - 1)) = reflect_String
                 \<or> (Kind (In (Type m) (NumIn (Type m) - 1)) = reflect_Slice
                    \<and> map_option Kind (Elem (In (Type m) (NumIn (Type m) - 1)))
                        = Some reflect_String))
         then (Some errRunReturnValue, a, [])
         else (Some errRunString, a, []))"
    by (auto simp: Rule_def Rule_strings_iff Let_def)
next
  assume m: "MethodByName c1 ''Run'' = Some m1" "MethodByName c2 ''Run'' = Some m2"
    and eq: "recv (Type m1) = recv (Type m2)" "params (Type m1) = params (Type m2)"
    and res: "take 1 (results (Type m1)) = take 1 (results (Type m2))"
  have n: "NumIn (Type m1) = NumIn (Type m2)" "\<And>i. In (Type m1) i = In (Type m2) i"
    using eq by (simp_all add: NumIn_def In_def)
  have s: "\<And>k. Rule_strings (Type m1) (NumIn (Type m2)) k
             = Rule_strings (Type m2) (NumIn (Type m2)) k"
    by (simp add: Rule_strings_iff n)
  have o: "(NumOut (Type m1) \<ge> 1 \<and> Kind (Out (Type m1) 0) \<noteq> reflect_Int)
         = (NumOut (Type m2) \<ge> 1 \<and> Kind (Out (Type m2) 0) \<noteq> reflect_Int)"
    using res by (cases "results (Type m1)"; cases "results (Type m2)")
                 (simp_all add: NumOut_def Out_def)
  show "fst (Rule a1 c1 n1 u1) = fst (Rule a2 c2 n2 u2)"
    using o by (simp add: Rule_def m n s Let_def split: option.splits sum.splits)
qed

theorem Rule_return_value_witness:
  "(MethodByName runErrReturnValue ''Run''
      = Some \<lparr>Type = \<lparr>recv = T_ptr (T_struct ''runErrReturnValue''),
                       params = [], results = [T_string], IsVariadic = False\<rparr>,
               Func = (\<lambda>flags ins. Inr [V_string ''fail''])\<rparr>
    \<and> NumOut \<lparr>recv = T_ptr (T_struct ''runErrReturnValue''),
               params = [], results = [T_string], IsVariadic = False\<rparr> \<ge> 1
    \<and> Kind (Out \<lparr>recv = T_ptr (T_struct ''runErrReturnValue''),
                   params = [], results = [T_string], IsVariadic = False\<rparr> 0) \<noteq> reflect_Int
    \<and> Rule myapp runErrReturnValue ''return'' [] = (Some errRunReturnValue, myapp, []))
   \<and> (take 1 [T_int, T_string] = take 1 [T_int]
      \<and> fst (Rule myapp runReturnsIntString ''a'' [])
        = fst (Rule full_app (command_of ''runReturnsIntString'' [] [T_int] [V_int 3]) ''b'' [])
      \<and> fst (Rule myapp runReturnsIntString ''a'' []) = None)"
proof -
  let ?m = "\<lparr>Type = \<lparr>recv = T_ptr (T_struct ''runErrReturnValue''),
                       params = [], results = [T_string], IsVariadic = False\<rparr>,
              Func = (\<lambda>flags ins. Inr [V_string ''fail''])\<rparr>"
  have m: "MethodByName runErrReturnValue ''Run'' = Some ?m"
    by (simp add: runErrReturnValue_def)
  have 1: "Rule myapp runErrReturnValue ''return'' [] = (Some errRunReturnValue, myapp, [])"
    using Rule_return_value [where c = runErrReturnValue and m = ?m and a = myapp
        and n = "''return''" and u = "[]"] m
    by (simp add: NumIn_def NumOut_def Out_def)
  have 2: "fst (Rule myapp runReturnsIntString ''a'' [])
        = fst (Rule full_app (command_of ''runReturnsIntString'' [] [T_int] [V_int 3]) ''b'' [])"
    using Rule_return_value [where ?c1.0 = runReturnsIntString
        and ?c2.0 = "command_of ''runReturnsIntString'' [] [T_int] [V_int 3]"
        and ?a1.0 = myapp and ?a2.0 = full_app and ?n1.0 = "''a''" and ?n2.0 = "''b''"
        and ?u1.0 = "[]" and ?u2.0 = "[]"]
    by (simp add: runReturnsIntString_def command_of_Run)
  have 3: "fst (Rule myapp runReturnsIntString ''a'' []) = None"
    unfolding runReturnsIntString_def Rule_eq [OF command_of_Run]
    by (simp add: NumIn_def NumOut_def Out_def final_is_slice_def)
  from m 1 2 3 show ?thesis
    by (simp add: NumOut_def Out_def)
qed

subsection \<open>Two registrations under one name\<close>

text \<open>
  Claim C8. After a handler \<open>h1\<close> was registered under a name \<open>n\<close> and then a handler
  \<open>h2\<close> under the same name, both with success, the rule under \<open>n\<close> is the rule of
  \<open>h2\<close>: its command is \<open>h2\<close>, its method the \<^verbatim>\<open>Run\<close> of \<open>h2\<close>, its flag set the one
  \<open>h2\<close> defined its flags on, its usage arguments those given with \<open>h2\<close>. And a
  registration under \<open>n\<close>, whether it succeeds or fails, leaves the rule (or the
  absence of one) under every other name as it was.
\<close>

theorem Rule_last_wins:
  "(Rule a h1 n u1 = (None, a1, e1) \<longrightarrow> Rule a1 h2 n u2 = (None, a2, e2) \<longrightarrow>
      MethodByName h2 ''Run'' = Some m2 \<longrightarrow>
        rules a2 n = Some \<lparr>command = h2, method = m2, slice = final_is_slice (Type m2),
                            name = n, options = Flags h2 (NewFlagSet n), arguments = u2\<rparr>)
   \<and> (n' \<noteq> n \<longrightarrow> rules (fst (snd (Rule a h n u))) n' = rules a n')"
proof (intro conjI impI)
  assume 1: "Rule a h1 n u1 = (None, a1, e1)" and 2: "Rule a1 h2 n u2 = (None, a2, e2)"
    and m: "MethodByName h2 ''Run'' = Some m2"
  from 2 have "rules a2 n = Some (new_rule h2 m2 n u2)"
    unfolding Rule_eq [OF m] by (auto split: if_splits)
  then show "rules a2 n = Some \<lparr>command = h2, method = m2, slice = final_is_slice (Type m2),
                            name = n, options = Flags h2 (NewFlagSet n), arguments = u2\<rparr>"
    by (simp add: new_rule_def)
next
  assume n: "n' \<noteq> n"
  show "rules (fst (snd (Rule a h n u))) n' = rules a n'"
  proof (cases "MethodByName h ''Run''")
    case None
    then show ?thesis by (simp add: Rule_def)
  next
    case (Some m)
    show ?thesis unfolding Rule_eq [OF Some] using n by simp
  qed
qed

lemma Rule_runNone:
  "Rule a runNone n u =
     (None, a\<lparr>rules := (rules a)(n \<mapsto> new_rule runNone (the (MethodByName runNone ''Run'')) n u)\<rparr>,
      [flag_NewFlagSet n, command_Flags n])"
  unfolding runNone_def Rule_eq [OF command_of_Run]
  by (simp add: command_of_Run NumIn_def NumOut_def final_is_slice_def)

theorem Rule_last_wins_witness:
  "fst (Rule myapp runNone ''full'' []) = None
   \<and> fst (Rule (fst (snd (Rule myapp runNone ''full'' []))) runFull ''full''
            ''<arg1> <arg2> [<extra>]'') = None
   \<and> rules (fst (snd (Rule (fst (snd (Rule myapp runNone ''full'' []))) runFull ''full''
                          ''<arg1> <arg2> [<extra>]''))) ''full''
      = Some \<lparr>command = runFull, method = the (MethodByName runFull ''Run''), slice = True,
              name = ''full'', options = Flags runFull (NewFlagSet ''full''),
              arguments = ''<arg1> <arg2> [<extra>]''\<rparr>
   \<and> ''full'' \<noteq> ''none''
   \<and> rules (fst (snd (Rule full_app runNone ''none'' []))) ''full'' = rules full_app ''full''
   \<and> rules full_app ''full'' \<noteq> None"
proof -
  let ?a1 = "fst (snd (Rule myapp runNone ''full'' []))"
  let ?r2 = "Rule ?a1 runFull ''full'' ''<arg1> <arg2> [<extra>]''"
  have tf: "Type (the (MethodByName runFull ''Run''))
         = \<lparr>recv = T_ptr (T_struct ''runFull''),
            params = [T_string, T_string, T_slice T_string], results = [T_int], IsVariadic = False\<rparr>"
    by (simp add: runFull_def)
  have sl: "final_is_slice (Type (the (MethodByName runFull ''Run'')))"
    by (simp add: tf final_is_slice_def NumIn_def In_def)
  have 1: "Rule myapp runNone ''full'' [] = (None, ?a1, [flag_NewFlagSet ''full'', command_Flags ''full''])"
    by (simp add: Rule_runNone)
  have 2: "?r2 = (None, fst (snd ?r2), [flag_NewFlagSet ''full'', command_Flags ''full''])"
    by (simp add: Rule_runFull)
  have m: "MethodByName runFull ''Run'' = Some (the (MethodByName runFull ''Run''))"
    by (simp add: runFull_def)
  have f: "rules full_app ''full'' \<noteq> None"
    by (simp add: full_app_rule)
  show ?thesis
    using Rule_last_wins [where a = myapp and ?h1.0 = runNone and n = "''full''" and ?u1.0 = "[]"
        and ?a1.0 = ?a1 and ?e1.0 = "[flag_NewFlagSet ''full'', command_Flags ''full'']"
        and ?h2.0 = runFull and ?u2.0 = "''<arg1> <arg2> [<extra>]''"
        and ?a2.0 = "fst (snd ?r2)" and ?e2.0 = "[flag_NewFlagSet ''full'', command_Flags ''full'']"
        and ?m2.0 = "the (MethodByName runFull ''Run'')"
        and n' = "''full''" and h = runNone and u = "[]"]
      Rule_last_wins [where n' = "''full''" and n = "''none''" and a = full_app
        and h = runNone and u = "[]"]
      1 2 m sl f
    by (simp add: Rule_runNone Rule_runFull)
qed

subsection \<open>A failed registration changes nothing\<close>

text \<open>
  Claim C10. Whenever \<^verbatim>\<open>Rule\<close> returns an error, whichever of the three, the application
  is as it was before the call (its rules in particular), and the call made no outside
  call: it made no flag set and did not call the handler's \<^verbatim>\<open>Flags\<close>.
\<close>

theorem Rule_failure_atomic:
  "Rule a c n u = (Some e, a', ev) \<Longrightarrow>
   a' = a \<and> rules a' = rules a \<and> ev = []
   \<and> flag_NewFlagSet n \<notin> set ev \<and> command_Flags n \<notin> set ev"
proof (cases "MethodByName c ''Run''")
  case None
  assume "Rule a c n u = (Some e, a', ev)"
  with None show ?thesis by (simp add: Rule_def)
next
  case (Some m)
  assume "Rule a c n u = (Some e, a', ev)"
  then show ?thesis
    unfolding Rule_eq [OF Some] by (auto split: if_splits)
qed

theorem Rule_failure_atomic_witness:
  "Rule full_app runErrString ''full'' [] = (Some errRunString, full_app, [])
   \<and> rules full_app ''full'' \<noteq> None"
  using Rule_failure_atomic [of full_app runErrString "''full''" "[]" errRunString
      "fst (snd (Rule full_app runErrString ''full'' []))"
      "snd (snd (Rule full_app runErrString ''full'' []))"]
  by (simp add: Rule_runErrString full_app_rule)

section \<open>Dispatch\<close>

subsection \<open>The two loops of \<^verbatim>\<open>Run\<close> in closed form\<close>

lemma length_Run_set: "length (Run_set args i ps) = length ps"
proof (induction args i ps rule: Run_set.induct)
  case (1 args i ps)
  show ?case
  proof (cases "i < length ps - 1")
    case True
    with 1 show ?thesis by (simp add: Run_set.simps [of args i ps])
  next
    case False
    then show ?thesis by (simp add: Run_set.simps [of args i ps])
  qed
qed

lemma Run_set_nth:
  "k < length ps \<Longrightarrow>
   Run_set args i ps ! k =
     (if i \<le> k \<and> k < length ps - 1
      then (if k < length args + 1 then V_string (args ! (k - 1)) else V_string [])
      else ps ! k)"
proof (induction args i ps rule: Run_set.induct)
  case (1 args i ps)
  show ?case
  proof (cases "i < length ps - 1")
    case False
    then show ?thesis by (auto simp: Run_set.simps [of args i ps])
  next
    case True
    let ?ps = "if i < length args + 1 then ps[i := V_string (args ! (i - 1))]
               else ps[i := V_string []]"
    have step: "Run_set args i ps = Run_set args (Suc i) ?ps"
      using True by (simp add: Run_set.simps [of args i ps])
    have len: "length ?ps = length ps" by simp
    have ih: "Run_set args (Suc i) ?ps ! k =
       (if Suc i \<le> k \<and> k < length ?ps - 1
        then (if k < length args + 1 then V_string (args ! (k - 1)) else V_string [])
        else ?ps ! k)"
      using "1.IH" [OF True] "1.prems" len by simp
    show ?thesis
    proof (cases "k = i")
      case True
      with \<open>i < length ps - 1\<close> "1.prems" show ?thesis
        unfolding step ih by simp
    next
      case False
      then show ?thesis
        unfolding step ih using "1.prems" by auto
    qed
  qed
qed

lemma Run_append_eq:
  "i < length ps \<Longrightarrow> ps ! i = V_strings xs \<Longrightarrow>
   Run_append args i j ps = Inr (ps[i := V_strings (xs @ drop j args)])"
proof (induction args i j ps arbitrary: xs rule: Run_append.induct)
  case (1 args i j ps)
  show ?case
  proof (cases "j < length args")
    case False
    have "ps[i := V_strings xs] = ps"
      using "1.prems" by (metis list_update_id)
    with False show ?thesis
      by (simp add: Run_append.simps [of args i j ps])
  next
    case True
    have app: "Append (ps ! i) (V_string (args ! j)) = Inr (V_strings (xs @ [args ! j]))"
      using "1.prems" by simp
    have "Run_append args i j ps
        = Run_append args i (Suc j) (ps[i := V_strings (xs @ [args ! j])])"
      using True app by (simp add: Run_append.simps [of args i j ps])
    also have "\<dots> = Inr ((ps[i := V_strings (xs @ [args ! j])])
                        [i := V_strings ((xs @ [args ! j]) @ drop (Suc j) args)])"
      using "1.IH" [OF True app, of "xs @ [args ! j]"] "1.prems" by simp
    also have "\<dots> = Inr (ps[i := V_strings (xs @ drop j args)])"
      using True by (simp add: Cons_nth_drop_Suc)
    finally show ?thesis .
  qed
qed

subsection \<open>The parameters \<^verbatim>\<open>Run\<close> prepares\<close>

text \<open>
  With a slice as last parameter: the receiver, then for each parameter before the last
  the argument at its place or the empty string, then the arguments that are left.
\<close>

lemma Run_params_slice:
  assumes "slice r" and "NumIn (Type (method r)) = N + 2"
  shows "Run_params r args
       = Inr (V_receiver # map (\<lambda>k. V_string (if k < length args then args ! k else [])) [0..<N]
                @ [V_strings (drop N args)])"
proof -
  let ?p1 = "(replicate (N + 2) Invalid)[0 := V_receiver]"
  let ?p2 = "Run_set args 1 ?p1"
  let ?p3 = "?p2[Suc N := V_strings []]"
  have "Run_params r args = Run_append args (Suc N) N ?p3"
    using assms(1,2) by (simp add: Run_params_def Let_def length_Run_set)
  also have "\<dots> = Inr (?p3[Suc N := V_strings ([] @ drop N args)])"
    by (rule Run_append_eq) (simp_all add: length_Run_set)
  also have "?p3[Suc N := V_strings ([] @ drop N args)]
           = V_receiver # map (\<lambda>k. V_string (if k < length args then args ! k else [])) [0..<N]
                @ [V_strings (drop N args)]"
    (is "?l = ?r")
  proof (rule nth_equalityI)
    show "length ?l = length ?r" by (simp add: length_Run_set)
  next
    fix k assume "k < length ?l"
    then have k: "k < N + 2" by (simp add: length_Run_set)
    consider "k = 0" | "1 \<le> k" "k \<le> N" | "k = Suc N" using k by linarith
    then show "?l ! k = ?r ! k"
    proof cases
      case 1
      then show ?thesis by (simp add: Run_set_nth)
    next
      case 2
      then obtain k' where k': "k = Suc k'" by (cases k) auto
      with 2 show ?thesis
        by (auto simp: Run_set_nth nth_append)
    next
      case 3
      then show ?thesis
        by (simp add: length_Run_set nth_append)
    qed
  qed
  finally show ?thesis .
qed

lemma map_fill_take:
  "N \<le> length args \<Longrightarrow>
   map (\<lambda>k. V_string (if k < length args then args ! k else [])) [0..<N]
     = map V_string (take N args)"
  by (rule nth_equalityI) simp_all

text \<open>
  Without a slice, and with no parameter or at least two: the receiver, then for each
  parameter the argument at its place or the empty string; further arguments are ignored.
\<close>

lemma Run_params_fixed:
  assumes "\<not> slice r" and "NumIn (Type (method r)) = Suc N" and "N \<noteq> 1"
  shows "Run_params r args
       = Inr (V_receiver # map (\<lambda>k. V_string (if k < length args then args ! k else [])) [0..<N])"
proof (cases "N = 0")
  case True
  have "Run_set args 1 [V_receiver] = [V_receiver]"
    by (subst Run_set.simps) simp
  with True assms show ?thesis by (simp add: Run_params_def Let_def)
next
  case False
  with assms(3) have N: "N > 1" by simp
  let ?p1 = "(replicate (Suc N) Invalid)[0 := V_receiver]"
  let ?p2 = "Run_set args 1 ?p1"
  let ?v = "if N < length args + 1 then V_string (args ! (N - 1)) else V_string []"
  have "Run_params r args = Inr (?p2[N := ?v])"
    using assms(1,2) N by (simp add: Run_params_def Let_def length_Run_set)
  also have "?p2[N := ?v]
     = V_receiver # map (\<lambda>k. V_string (if k < length args then args ! k else [])) [0..<N]"
    (is "?l = ?r")
  proof (rule nth_equalityI)
    show "length ?l = length ?r" by (simp add: length_Run_set)
  next
    fix k assume "k < length ?l"
    then have k: "k < Suc N" by (simp add: length_Run_set)
    consider "k = 0" | "1 \<le> k" "k < N" | "k = N" using k by linarith
    then show "?l ! k = ?r ! k"
    proof cases
      case 1
      with N show ?thesis by (simp add: Run_set_nth)
    next
      case 2
      then obtain k' where k': "k = Suc k'" by (cases k) auto
      with 2 show ?thesis
        by (auto simp: Run_set_nth length_Run_set)
    next
      case 3
      then obtain k' where k': "N = Suc k'" using N by (cases N) auto
      with 3 show ?thesis
        by (auto simp: length_Run_set nth_append)
    qed
  qed
  finally show ?thesis .
qed

text \<open>
  Without a slice and with exactly one parameter, the parameter is left the zero Value:
  the test \<^verbatim>\<open>i > 1\<close> before the last parameter is set skips it, and \<^verbatim>\<open>Call\<close> panics.
\<close>

lemma Run_params_one:
  assumes "\<not> slice r" and "NumIn (Type (method r)) = 2"
  shows "Run_params r args = Inr [V_receiver, Invalid]"
proof -
  have "(replicate 2 Invalid)[0 := V_receiver] = [V_receiver, Invalid]"
    by (simp add: numeral_2_eq_2)
  moreover have "Run_set args 1 [V_receiver, Invalid] = [V_receiver, Invalid]"
    by (subst Run_set.simps) simp
  ultimately show ?thesis
    using assms by (simp add: Run_params_def Let_def)
qed

lemma Call_zero_Value:
  "length ps = NumIn (Type m) \<Longrightarrow> Invalid \<in> set ps \<Longrightarrow>
   Call m flags ps = Inl Call_zero_Value_argument"
  by (auto simp: Call_def Let_def)

lemma one_app_rule:
  "rules one_app ''one'' = Some (new_rule runOne (the (MethodByName runOne ''Run'')) ''one'' ''<key>'')"
  unfolding one_app_def runOne_def Rule_eq [OF command_of_Run]
  by (simp add: command_of_Run NumIn_def In_def NumOut_def final_is_slice_def)

lemma full_rule_shape:
  "slice (new_rule runFull (the (MethodByName runFull ''Run'')) n u)"
  "NumIn (Type (method (new_rule runFull (the (MethodByName runFull ''Run'')) n u))) = 2 + 2"
  by (simp_all add: new_rule_def runFull_def final_is_slice_def NumIn_def In_def)

lemma full_rule_method:
  "method (new_rule runFull (the (MethodByName runFull ''Run'')) n u)
     = \<lparr>Type = \<lparr>recv = T_ptr (T_struct ''runFull''),
                 params = [T_string, T_string, T_slice T_string], results = [T_int], IsVariadic = False\<rparr>,
        Func = (\<lambda>flags ins. Inr [V_int 2])\<rparr>"
  by (simp_all add: new_rule_def runFull_def final_is_slice_def NumIn_def In_def)

lemma none_rule_shape:
  "\<not> slice (new_rule runNone (the (MethodByName runNone ''Run'')) n u)"
  "NumIn (Type (method (new_rule runNone (the (MethodByName runNone ''Run'')) n u))) = Suc 0"
  by (simp_all add: new_rule_def runNone_def command_of_Run final_is_slice_def NumIn_def)

lemma none_rule_method:
  "method (new_rule runNone (the (MethodByName runNone ''Run'')) n u)
     = \<lparr>Type = \<lparr>recv = T_ptr (T_struct ''runNone''), params = [], results = [], IsVariadic = False\<rparr>,
        Func = (\<lambda>flags ins. Inr [])\<rparr>"
  by (simp_all add: new_rule_def runNone_def command_of_Run final_is_slice_def NumIn_def)

subsection \<open>Every parameter gets a value\<close>

text \<open>
  Claim C1 says that for every registered rule and every list of arguments each
  parameter is given a value and the call goes ahead. The command with
  \<^verbatim>\<open>Run(key string)\<close> is registered without error, but for the arguments \<^verbatim>\<open>["k"]\<close> as
  for none its parameter is left the zero Value, and \<^verbatim>\<open>Run\<close> ends in the panic of
  \<^verbatim>\<open>Call\<close>, "reflect: Call using zero Value argument".
\<close>

theorem Run_one_parameter:
  "fst (Rule myapp runOne ''one'' ''<key>'') = None
   \<and> rules one_app ''one'' \<noteq> None
   \<and> Run_params (the (rules one_app ''one'')) [''k''] = Inr [V_receiver, Invalid]
   \<and> Run_params (the (rules one_app ''one'')) [] = Inr [V_receiver, Invalid]
   \<and> Run one_app Parse_args [''one''] [''one'', ''k''] = ([], Panic Call_zero_Value_argument)
   \<and> Run one_app Parse_args [''one''] [''one''] = ([], Panic Call_zero_Value_argument)"
proof -
  let ?m = "the (MethodByName runOne ''Run'')"
  let ?r = "new_rule runOne ?m ''one'' ''<key>''"
  have t: "Type ?m = \<lparr>recv = T_ptr (T_struct ''runOne''), params = [T_string], results = [], IsVariadic = False\<rparr>"
    by (simp add: runOne_def command_of_Run)
  have n: "NumIn (Type (method ?r)) = 2"
    by (simp add: new_rule_def t NumIn_def)
  have s: "\<not> slice ?r"
    by (simp add: new_rule_def t final_is_slice_def NumIn_def In_def)
  have p: "Run_params ?r args = Inr [V_receiver, Invalid]" for args
    using s n by (rule Run_params_one)
  have c: "Call (method ?r) flags [V_receiver, Invalid] = Inl Call_zero_Value_argument" for flags
    by (rule Call_zero_Value) (simp_all add: n)
  have 1: "fst (Rule myapp runOne ''one'' ''<key>'') = None"
    unfolding runOne_def Rule_eq [OF command_of_Run]
    by (simp add: NumIn_def In_def NumOut_def final_is_slice_def)
  show ?thesis
    by (simp add: 1 one_app_rule p c Run_def Parse_args_def Args_def)
qed

subsection \<open>A slice as last parameter takes the arguments left\<close>

text \<open>
  What \<^verbatim>\<open>Call\<close> does with the parameters \<^verbatim>\<open>Run\<close> prepares for a rule whose parameters
  are strings and then a slice of strings: when the final parameter is declared
  \<^verbatim>\<open>[]string\<close> it calls the method with them; when it is declared \<^verbatim>\<open>...string\<close> it
  panics, since it takes the final inputs of a variadic function one by one and the
  slice \<^verbatim>\<open>Run\<close> has made is not a string.
\<close>

lemma Call_types_strings:
  "\<forall>x\<in>set xs. Value_Type t x = Some T_string \<Longrightarrow>
   Call_types t (xs @ vs) (replicate (length xs) T_string @ ts) = Call_types t vs ts"
  by (induction xs) simp_all

lemma Call_slice:
  assumes "\<not> IsVariadic (Type m)"
    and "params (Type m) = replicate (length xs) T_string @ [T_slice T_string]"
    and "\<forall>x\<in>set xs. Value_Type (recv (Type m)) x = Some T_string"
  shows "Call m flags (V_receiver # xs @ [V_strings ys])
       = (case Func m flags (xs @ [V_strings ys]) of
            Inl msg \<Rightarrow> Inl (command_panic msg)
          | Inr rv \<Rightarrow> Inr rv)"
proof -
  have "Call_types (recv (Type m)) (V_receiver # xs @ [V_strings ys])
          (recv (Type m) # replicate (length xs) T_string @ [T_slice T_string]) = None"
    using assms(3) by (simp add: Call_types_strings)
  moreover have "Invalid \<notin> set (V_receiver # xs @ [V_strings ys])"
    using assms(3) by auto
  ultimately show ?thesis
    using assms(1,2) by (simp add: Call_def Let_def NumIn_def)
qed

lemma Call_variadic_slice:
  assumes "IsVariadic (Type m)"
    and "params (Type m) = replicate (length xs) T_string @ [T_slice T_string]"
    and "\<forall>x\<in>set xs. Value_Type (recv (Type m)) x = Some T_string"
  shows "Call m flags (V_receiver # xs @ [V_strings ys])
       = Inl (Call_cannot_use (T_slice T_string) T_string)"
proof -
  let ?t = "Type m"
  have n: "NumIn ?t - 1 = Suc (length xs)"
    by (simp add: NumIn_def assms(2))
  have tk: "take (Suc (length xs)) (recv ?t # params ?t)
          = recv ?t # replicate (length xs) T_string @ []"
    by (simp add: assms(2))
  have "Call_types (recv ?t) (xs @ [V_strings ys]) (replicate (length xs) T_string @ []) = None"
    using assms(3) by (subst Call_types_strings) simp_all
  then have "Call_types (recv ?t) (V_receiver # xs @ [V_strings ys])
          (recv ?t # replicate (length xs) T_string @ []) = None"
    by simp
  moreover have "Invalid \<notin> set (V_receiver # xs @ [V_strings ys])"
    using assms(3) by auto
  moreover have "In ?t (Suc (length xs)) = T_slice T_string"
    by (simp add: In_def assms(2) nth_append)
  moreover have "drop (Suc (length xs)) (V_receiver # xs @ [V_strings ys]) = [V_strings ys]"
    by simp
  ultimately show ?thesis
    using assms(1) n tk by (simp add: Call_def Let_def)
qed

text \<open>
  So for a final parameter declared \<^verbatim>\<open>[]string\<close>, and at least \<open>N\<close> arguments left for the
  \<open>N\<close> parameters before it, \<^verbatim>\<open>Run\<close> calls the method with the first \<open>N\<close> arguments and
  the slice of the arguments from index \<open>N\<close> on, in order, and exits with its result.
\<close>

lemma Run_slice_params:
  assumes "slice r" and "params (Type (method r)) = replicate N T_string @ [T_slice T_string]"
  shows "Run_params r args
       = Inr (V_receiver # map (\<lambda>k. V_string (if k < length args then args ! k else [])) [0..<N]
                @ [V_strings (drop N args)])"
  by (rule Run_params_slice [OF assms(1)]) (simp add: NumIn_def assms(2))

lemma Run_slice_dispatch:
  assumes "rules a n = Some r" and "slice r" and "\<not> IsVariadic (Type (method r))"
    and "params (Type (method r)) = replicate N T_string @ [T_slice T_string]"
    and "Parse (options r) rest = Inr flags" and "N \<le> length (Args flags)"
  shows "Run a Parse order (n # rest) =
     (case Func (method r) flags
             (map V_string (take N (Args flags)) @ [V_strings (drop N (Args flags))]) of
        Inl msg \<Rightarrow> ([], Panic (command_panic msg))
      | Inr rv \<Rightarrow>
          if length rv > 0 then
            (case Int_v (rv ! 0) of
               Inl p \<Rightarrow> ([], Panic p)
             | Inr code \<Rightarrow> ([], Exit code))
          else ([], Exit 0))"
proof -
  let ?xs = "map V_string (take N (Args flags))"
  let ?ys = "drop N (Args flags)"
  have len: "length ?xs = N" using assms(6) by simp
  have p: "Run_params r (Args flags) = Inr (V_receiver # ?xs @ [V_strings ?ys])"
    using Run_slice_params [OF assms(2,4), of "Args flags"] map_fill_take [OF assms(6)]
    by simp
  have c: "Call (method r) flags (V_receiver # ?xs @ [V_strings ?ys])
       = (case Func (method r) flags (?xs @ [V_strings ?ys]) of
            Inl msg \<Rightarrow> Inl (command_panic msg)
          | Inr rv \<Rightarrow> Inr rv)"
    using assms(6) by (intro Call_slice [OF assms(3)]) (simp_all add: assms(4) min_def)
  show ?thesis
    using assms(1,5) by (simp add: Run_def p c split: sum.splits)
qed

text \<open>
  And for a final parameter declared \<^verbatim>\<open>...string\<close>, for which \<^verbatim>\<open>Rule\<close> records
  \<^verbatim>\<open>slice = true\<close> as well, \<^verbatim>\<open>Run\<close> ends in the panic of \<^verbatim>\<open>Call\<close> whatever the arguments.
\<close>

lemma Run_variadic_dispatch:
  assumes "rules a n = Some r" and "slice r" and "IsVariadic (Type (method r))"
    and "params (Type (method r)) = replicate N T_string @ [T_slice T_string]"
    and "Parse (options r) rest = Inr flags"
  shows "Run a Parse order (n # rest)
       = ([], Panic (Call_cannot_use (T_slice T_string) T_string))"
proof -
  let ?xs = "map (\<lambda>k. V_string (if k < length (Args flags) then Args flags ! k else [])) [0..<N]"
  let ?ys = "drop N (Args flags)"
  have len: "length ?xs = N" by simp
  have p: "Run_params r (Args flags) = Inr (V_receiver # ?xs @ [V_strings ?ys])"
    by (rule Run_slice_params [OF assms(2,4)])
  have c: "Call (method r) flags (V_receiver # ?xs @ [V_strings ?ys])
       = Inl (Call_cannot_use (T_slice T_string) T_string)"
    by (rule Call_variadic_slice [OF assms(3)]) (simp_all add: assms(4))
  show ?thesis
    using assms(1,5) by (simp add: Run_def p c)
qed

lemma runVariadic_Run:
  "MethodByName runVariadic ''Run''
     = Some \<lparr>Type = \<lparr>recv = T_ptr (T_struct ''runVariadic''),
                      params = [T_string, T_slice T_string], results = [],
                      IsVariadic = True\<rparr>,
              Func = (\<lambda>flags ins. Inr [])\<rparr>"
  by (simp add: runVariadic_def)

lemma Rule_runVariadic:
  "Rule a runVariadic n u =
     (None, a\<lparr>rules := (rules a)(n \<mapsto> new_rule runVariadic (the (MethodByName runVariadic ''Run'')) n u)\<rparr>,
      [flag_NewFlagSet n, command_Flags n])"
proof -
  let ?t = "\<lparr>recv = T_ptr (T_struct ''runVariadic''),
             params = [T_string, T_slice T_string], results = [], IsVariadic = True\<rparr>"
  have "Kind (In ?t i) = reflect_String" if "1 \<le> i" "i < NumIn ?t - 1" for i
  proof -
    from that have "i = 1" by (auto simp: NumIn_def)
    then show ?thesis by (simp add: In_def)
  qed
  then have strings: "\<not> (\<exists>i. 1 \<le> i \<and> i < NumIn ?t - 1 \<and> Kind (In ?t i) \<noteq> reflect_String)"
    by blast
  have final: "final_is_slice ?t"
    by (simp add: final_is_slice_def NumIn_def In_def)
  have out: "NumOut ?t = 0"
    by (simp add: NumOut_def)
  show ?thesis
    unfolding Rule_eq [OF runVariadic_Run] runVariadic_Run
    using strings final out by simp
qed

lemma variadic_app_rule:
  "rules variadic_app ''variadic''
     = Some (new_rule runVariadic (the (MethodByName runVariadic ''Run'')) ''variadic''
               ''<a> [<rest>]'')"
  by (simp add: variadic_app_def Rule_runVariadic)

text \<open>
  Claim C6 says that for every rule with \<open>N\<close> parameters before the last whose last
  parameter is recorded as a slice, and every list of at least \<open>N\<close> arguments, the
  dispatch gives the last parameter the arguments from index \<open>N\<close> on. The command with
  \<^verbatim>\<open>Run(a string, rest ...string)\<close> is registered without error and its rule records
  \<^verbatim>\<open>slice = true\<close>; for the arguments \<^verbatim>\<open>["a", "x", "y"]\<close> \<^verbatim>\<open>Run\<close> prepares the receiver,
  \<^verbatim>\<open>"a"\<close> and the slice \<^verbatim>\<open>["x", "y"]\<close>, but \<^verbatim>\<open>Call\<close> panics with "reflect: cannot use
  []string as type string in Call": the method is not called and its last parameter
  receives nothing. The same with the one argument \<^verbatim>\<open>["a"]\<close>.
\<close>

theorem Run_variadic_panics:
  "fst (Rule myapp runVariadic ''variadic'' ''<a> [<rest>]'') = None
   \<and> rules variadic_app ''variadic'' \<noteq> None
   \<and> slice (the (rules variadic_app ''variadic''))
   \<and> NumIn (Type (method (the (rules variadic_app ''variadic'')))) = 1 + 2
   \<and> (1::nat) \<le> length [''a'', ''x'', ''y'']
   \<and> Run_params (the (rules variadic_app ''variadic'')) [''a'', ''x'', ''y'']
       = Inr [V_receiver, V_string ''a'', V_strings [''x'', ''y'']]
   \<and> Run variadic_app Parse_args [''variadic''] [''variadic'', ''a'', ''x'', ''y'']
       = ([], Panic (Call_cannot_use (T_slice T_string) T_string))
   \<and> Run variadic_app Parse_args [''variadic''] [''variadic'', ''a'']
       = ([], Panic (Call_cannot_use (T_slice T_string) T_string))"
proof -
  let ?r = "new_rule runVariadic (the (MethodByName runVariadic ''Run'')) ''variadic''
              ''<a> [<rest>]''"
  have 1: "fst (Rule myapp runVariadic ''variadic'' ''<a> [<rest>]'') = None"
    by (simp add: Rule_runVariadic)
  have s: "slice ?r"
    by (simp add: new_rule_def runVariadic_Run final_is_slice_def NumIn_def In_def)
  have v: "IsVariadic (Type (method ?r))"
    by (simp add: new_rule_def runVariadic_Run)
  have ps: "params (Type (method ?r)) = replicate 1 T_string @ [T_slice T_string]"
    by (simp add: new_rule_def runVariadic_Run)
  have n: "NumIn (Type (method ?r)) = 1 + 2"
    by (simp add: NumIn_def ps)
  have p: "Run_params ?r [''a'', ''x'', ''y'']
       = Inr [V_receiver, V_string ''a'', V_strings [''x'', ''y'']]"
    using Run_slice_params [OF s ps, of "[''a'', ''x'', ''y'']"] by simp
  have run: "Run variadic_app Parse_args [''variadic''] (''variadic'' # rest)
       = ([], Panic (Call_cannot_use (T_slice T_string) T_string))" for rest
    by (rule Run_variadic_dispatch [OF variadic_app_rule s v ps]) (simp add: Parse_args_def)
  show ?thesis
    using 1 s n p run by (simp add: variadic_app_rule)
qed


subsection \<open>The exit code\<close>

text \<open>
  Claim C7. For every rule \<^verbatim>\<open>Run\<close> dispatches to, once its \<^verbatim>\<open>Run\<close> method was called and
  returned: when it returned no result the process exits with code 0, and when it
  returned results of which the first is the int \<open>k\<close> the process exits with code \<open>k\<close>.
\<close>

theorem Run_exit_code:
  "rules a n = Some r \<Longrightarrow> Parse (options r) rest = Inr flags \<Longrightarrow>
   Run_params r (Args flags) = Inr ps \<Longrightarrow> Call (method r) flags ps = Inr rv \<Longrightarrow>
   (rv = [] \<longrightarrow> Run a Parse order (n # rest) = ([], Exit 0))
   \<and> (\<forall>k vs. rv = V_int k # vs \<longrightarrow> Run a Parse order (n # rest) = ([], Exit k))"
  by (simp add: Run_def)

theorem Run_exit_code_witness:
  "Run full_app Parse_args [''full''] [''full'', ''bob'', ''smith'', ''x'', ''y''] = ([], Exit 2)
   \<and> Call (method (the (rules full_app ''full'')))
         ((options (the (rules full_app ''full'')))\<lparr>fs_args := [''bob'', ''smith'', ''x'', ''y'']\<rparr>)
         [V_receiver, V_string ''bob'', V_string ''smith'', V_strings [''x'', ''y'']]
       = Inr [V_int 2]
   \<and> Run (fst (snd (Rule full_app runNone ''none'' []))) Parse_args [''full'', ''none''] [''none'']
       = ([], Exit 0)
   \<and> Call (method (the (rules (fst (snd (Rule full_app runNone ''none'' []))) ''none'')))
         ((options (the (rules (fst (snd (Rule full_app runNone ''none'' []))) ''none'')))\<lparr>fs_args := []\<rparr>)
         [V_receiver]
       = Inr []"
proof -
  let ?rF = "new_rule runFull (the (MethodByName runFull ''Run'')) ''full'' ''<arg1> <arg2> [<extra>]''"
  let ?fF = "(options ?rF)\<lparr>fs_args := [''bob'', ''smith'', ''x'', ''y'']\<rparr>"
  let ?pF = "[V_receiver, V_string ''bob'', V_string ''smith'', V_strings [''x'', ''y'']]"
  have pF: "Run_params ?rF (Args ?fF) = Inr ?pF"
    using Run_params_slice [OF full_rule_shape, of "''full''" "''<arg1> <arg2> [<extra>]''"
        "[''bob'', ''smith'', ''x'', ''y'']"]
    by (simp add: Args_def upt_rec numeral_2_eq_2)
  have cF: "Call (method ?rF) ?fF ?pF = Inr [V_int 2]"
    by (simp add: full_rule_method Call_def NumIn_def)
  let ?aN = "fst (snd (Rule full_app runNone ''none'' []))"
  let ?rN = "new_rule runNone (the (MethodByName runNone ''Run'')) ''none'' []"
  let ?fN = "(options ?rN)\<lparr>fs_args := []\<rparr>"
  have rN: "rules ?aN ''none'' = Some ?rN"
    by (simp add: Rule_runNone)
  have pN: "Run_params ?rN (Args ?fN) = Inr [V_receiver]"
    using Run_params_fixed [OF none_rule_shape, of "''none''" "[]" "[]"]
    by (simp add: Args_def)
  have cN: "Call (method ?rN) ?fN [V_receiver] = Inr []"
    by (simp add: none_rule_method Call_def NumIn_def)
  show ?thesis
    using Run_exit_code [OF full_app_rule, of Parse_args "[''bob'', ''smith'', ''x'', ''y'']" ?fF
        ?pF "[V_int 2]" "[''full'']"]
      Run_exit_code [OF rN, of Parse_args "[]" ?fN "[V_receiver]" "[]" "[''full'', ''none'']"]
      pF cF pN cN
    by (simp add: Parse_args_def full_app_rule rN)
qed


section \<open>Usage\<close>

subsection \<open>The line of a flag in what \<^verbatim>\<open>printUsage\<close> writes\<close>

lemma print_each_line:
  "print_each f xs = (s, None) \<Longrightarrow> x \<in> set xs \<Longrightarrow>
   \<exists>l pre post. f x = (l, None) \<and> s = pre @ l @ post"
proof (induction xs arbitrary: s)
  case Nil
  then show ?case by simp
next
  case (Cons y ys)
  from Cons.prems(1) obtain l s' where y: "f y = (l, None)"
    and ys: "print_each f ys = (s', None)" and s: "s = l @ s'"
    by (auto split: prod.splits option.splits)
  show ?case
  proof (cases "x = y")
    case True
    with y s have "f x = (l, None) \<and> s = [] @ l @ s'" by simp
    then show ?thesis by blast
  next
    case False
    with Cons.prems(2) have "x \<in> set ys" by simp
    from Cons.IH [OF ys this] obtain l' pre post
      where "f x = (l', None)" "s' = pre @ l' @ post" by blast
    with s have "f x = (l', None) \<and> s = (l @ pre) @ l' @ post" by simp
    then show ?thesis by blast
  qed
qed

lemma printUsage_flag_line:
  "printUsage_flag len f = (l, None) \<Longrightarrow>
   l = ''    '' @ printUsage_option f
       @ replicate (len - length (printUsage_option f) - 2) CHR '' '' @ Usage f @ [CHR 0x0A]"
  by (auto simp: printUsage_flag_def Repeat_def Let_def nat_diff_distrib' 
      split: if_splits)

lemma printUsage_rule_line:
  assumes "printUsage_rule len r = (s, None)" and "f \<in> set (VisitAll (options r))"
  shows "\<exists>l pre post. printUsage_flag len f = (l, None) \<and> s = pre @ l @ post"
proof -
  from assms(1) obtain spaces s' where
    fl: "print_each (printUsage_flag len) (VisitAll (options r)) = (s', None)"
    and s: "s = ''  '' @ rule_String r @ spaces @ String_c (command r) @ [CHR 0x0A] @ s'"
    by (auto simp: printUsage_rule_def split: sum.splits prod.splits)
  from print_each_line [OF fl assms(2)] obtain l pre post
    where "printUsage_flag len f = (l, None)" "s' = pre @ l @ post" by blast
  with s have "printUsage_flag len f = (l, None)
      \<and> s = (''  '' @ rule_String r @ spaces @ String_c (command r) @ [CHR 0x0A] @ pre) @ l @ post"
    by simp
  then show ?thesis by blast
qed

lemma printUsage_line:
  assumes "printUsage a order = (out, None)" and "r \<in> set (range_rules a order)"
    and "f \<in> set (VisitAll (options r))"
  shows "\<exists>l pre post. printUsage_flag (getRuleLength a order) f = (l, None)
           \<and> out = pre @ l @ post"
proof -
  let ?len = "getRuleLength a order"
  from assms(1) obtain s where
    rs: "print_each (printUsage_rule ?len) (range_rules a order) = (s, None)"
    and out: "out = ''Usage: '' @ app_name a @ '' <cmd> [options] [<args>]'' @ [CHR 0x0A] @ s
                     @ [CHR 0x0A]"
    by (auto simp: printUsage_def Let_def split: prod.splits option.splits)
  from print_each_line [OF rs assms(2)] obtain lr pre post
    where lr: "printUsage_rule ?len r = (lr, None)" and s: "s = pre @ lr @ post" by blast
  from printUsage_rule_line [OF lr assms(3)] obtain l pre' post'
    where l: "printUsage_flag ?len f = (l, None)" and "lr = pre' @ l @ post'" by blast
  with s out have "out = (''Usage: '' @ app_name a @ '' <cmd> [options] [<args>]'' @ [CHR 0x0A]
       @ pre @ pre') @ l @ (post' @ post @ [CHR 0x0A])"
    by simp
  with l show ?thesis by blast
qed

lemma range_rules_mem:
  "k \<in> set order \<Longrightarrow> rules a k = Some r \<Longrightarrow> r \<in> set (range_rules a order)"
  by (force simp: range_rules_def List.map_filter_def)

lemma VisitAll_set: "set (VisitAll fs) = set (formal fs)"
  by (simp add: VisitAll_def)

lemma add_app_usage:
  "printUsage add_app [''add'']
     = (''Usage: myapp <cmd> [options] [<args>]'' @ [CHR 0x0A]
        @ ''  add [options] <key> <username> [<extra>]   Add record key with username.'' @ [CHR 0x0A]
        @ ''    -example=<value>                         An example string option.'' @ [CHR 0x0A]
        @ ''    -number=<n>                              An example int option.'' @ [CHR 0x0A]
        @ ''    -show-extra                              Print extra arguments.'' @ [CHR 0x0A]
        @ [CHR 0x0A], None)"
  by code_simp

lemma add_app_rule:
  "rules add_app ''add'' = Some (new_rule add_command (the (MethodByName add_command ''Run'')) ''add'' ''<key> <username> [<extra>]'')"
proof -
  have m: "MethodByName add_command ''Run'' = Some (the (MethodByName add_command ''Run''))"
    by (simp add: add_command_def)
  show ?thesis
    unfolding add_app_def
    by (subst Rule_two_strings_slice [OF m]) (simp_all add: add_command_def)
qed

lemma add_app_flags:
  "formal (options (new_rule add_command (the (MethodByName add_command ''Run'')) n u))
     = [\<lparr>Name = ''show-extra'', Usage = ''Print extra arguments.'',
         Value = boolValue False, DefValue = ''false''\<rparr>,
        \<lparr>Name = ''example'', Usage = ''An example string option.'',
         Value = stringValue [], DefValue = []\<rparr>,
        \<lparr>Name = ''number'', Usage = ''An example int option.'',
         Value = intValue 0, DefValue = ''0''\<rparr>]"
proof -
  have "Itoa 0 = ''0''" by code_simp
  then show ?thesis
    by (simp add: new_rule_def add_command_def FlagSet_Int_def FlagSet_String_def
        FlagSet_Bool_def FlagSet_Var_def NewFlagSet_def FormatBool_def)
qed

subsection \<open>The placeholder of a flag\<close>

text \<open>
  Claim C9 says that the placeholder follows the kind of the flag and that boolean
  flags show none. \<^verbatim>\<open>printUsage\<close> looks at the text of the default only: a boolean
  flag whose default is true is shown as \<^verbatim>\<open>-verbose="true"\<close>.
\<close>

theorem printUsage_placeholder_counterexample:
  "map Value (formal (options (the (rules verbose_app ''verbose'')))) = [boolValue True]
   \<and> printUsage verbose_app [''verbose'']
     = (''Usage: myapp <cmd> [options] [<args>]'' @ [CHR 0x0A]
        @ ''  verbose [options]   Be verbose.'' @ [CHR 0x0A]
        @ ''    -verbose='' @ [CHR 0x22] @ ''true'' @ [CHR 0x22] @ ''   Be loud.''
        @ [CHR 0x0A, CHR 0x0A], None)"
  by code_simp

text \<open>
  Claim C9, as amended. For every rule of the application and every flag defined on
  its flag set, when
  \<^verbatim>\<open>printUsage\<close> writes the usage to the end, what it writes has the line of the flag:
  four spaces, \<^verbatim>\<open>-name\<close>, then the placeholder that the text of the default decides,
  padding, the usage text of the flag. The empty default shows \<^verbatim>\<open>=<value>\<close>; the
  default \<^verbatim>\<open>false\<close> shows nothing after the name; a default that \<^verbatim>\<open>strconv.Atoi\<close>
  accepts shows \<^verbatim>\<open>=<n>\<close>; every other default is shown itself, in double quotes.
\<close>

theorem printUsage_placeholder:
  assumes "rules a k = Some r" and "k \<in> set order" and "f \<in> set (formal (options r))"
    and "printUsage a order = (out, None)"
  shows "\<exists>pre pad post. out = pre @ ''    '' @
     (if DefValue f = [] then ''-'' @ Name f @ ''=<value>''
      else if DefValue f = ''false'' then ''-'' @ Name f
      else if Atoi (DefValue f) \<noteq> None then ''-'' @ Name f @ ''=<n>''
      else ''-'' @ Name f @ ''='' @ [CHR 0x22] @ DefValue f @ [CHR 0x22])
     @ replicate pad CHR '' '' @ Usage f @ [CHR 0x0A] @ post"
proof -
  have opt: "printUsage_option f =
     (if DefValue f = [] then ''-'' @ Name f @ ''=<value>''
      else if DefValue f = ''false'' then ''-'' @ Name f
      else if Atoi (DefValue f) \<noteq> None then ''-'' @ Name f @ ''=<n>''
      else ''-'' @ Name f @ ''='' @ [CHR 0x22] @ DefValue f @ [CHR 0x22])"
    by (simp add: printUsage_option_def printUsage_value_def Let_def)
  have r: "r \<in> set (range_rules a order)"
    using assms(1,2) by (simp add: range_rules_mem)
  have f: "f \<in> set (VisitAll (options r))"
    using assms(3) by (simp add: VisitAll_set)
  from printUsage_line [OF assms(4) r f] obtain l pre post
    where l: "printUsage_flag (getRuleLength a order) f = (l, None)"
      and out: "out = pre @ l @ post" by blast
  from printUsage_flag_line [OF l] out
  have "out = pre @ ''    '' @ printUsage_option f
       @ replicate (getRuleLength a order - length (printUsage_option f) - 2) CHR '' ''
       @ Usage f @ [CHR 0x0A] @ post"
    by simp
  then show ?thesis unfolding opt by blast
qed

theorem printUsage_placeholder_witness:
  "rules add_app ''add'' \<noteq> None
   \<and> snd (printUsage add_app [''add'']) = None
   \<and> (\<exists>pre pad post. fst (printUsage add_app [''add''])
         = pre @ ''    -show-extra'' @ replicate pad CHR '' ''
           @ ''Print extra arguments.'' @ [CHR 0x0A] @ post)
   \<and> (\<exists>pre pad post. fst (printUsage add_app [''add''])
         = pre @ ''    -example=<value>'' @ replicate pad CHR '' ''
           @ ''An example string option.'' @ [CHR 0x0A] @ post)
   \<and> (\<exists>pre pad post. fst (printUsage add_app [''add''])
         = pre @ ''    -number=<n>'' @ replicate pad CHR '' ''
           @ ''An example int option.'' @ [CHR 0x0A] @ post)"
proof -
  let ?r = "new_rule add_command (the (MethodByName add_command ''Run'')) ''add''
              ''<key> <username> [<extra>]''"
  let ?out = "fst (printUsage add_app [''add''])"
  have out: "printUsage add_app [''add''] = (?out, None)"
    by (simp add: add_app_usage)
  have k: "''add'' \<in> set [''add'']" by simp
  have atoi: "Atoi ''0'' \<noteq> None" by (simp add: Atoi_def)
  show ?thesis
    using printUsage_placeholder [OF add_app_rule k _ out,
        of "\<lparr>Name = ''show-extra'', Usage = ''Print extra arguments.'',
         Value = boolValue False, DefValue = ''false''\<rparr>"]
      printUsage_placeholder [OF add_app_rule k _ out,
        of "\<lparr>Name = ''example'', Usage = ''An example string option.'',
         Value = stringValue [], DefValue = []\<rparr>"]
      printUsage_placeholder [OF add_app_rule k _ out,
        of "\<lparr>Name = ''number'', Usage = ''An example int option.'',
         Value = intValue 0, DefValue = ''0''\<rparr>"]
      atoi
    by (simp add: add_app_flags add_app_rule add_app_usage)
qed


end
